theory Spec2Isabelle
  imports Complex_Main "HOL-Library.AList"
begin

section \<open>Values and dictionaries\<close>

text \<open>
  The permission engine of \<^verbatim>\<open>backend/server.py\<close> works on JSON-shaped Python
  dictionaries. A scalar JSON value is a \<open>pyval\<close>; \<open>truthy\<close> is Python's \<^verbatim>\<open>bool(x)\<close>
  on it. A dictionary with string keys is an association list in insertion order:
  \<open>dict_get\<close> is \<^verbatim>\<open>d.get(k)\<close> (with \<open>None\<close> for a missing key), \<open>dict_set\<close> is
  \<^verbatim>\<open>d[k] = v\<close> (an existing key keeps its position, a new key is appended).
\<close>

datatype pyval = PNone | PBool bool | PInt int | PFloat real | PStr string

fun truthy :: "pyval \<Rightarrow> bool" where
  "truthy PNone = False"
| "truthy (PBool b) = b"
| "truthy (PInt n) = (n \<noteq> 0)"
| "truthy (PFloat x) = (x \<noteq> 0)"
| "truthy (PStr s) = (s \<noteq> [])"

type_synonym 'v dict = "(string \<times> 'v) list"

definition dict_get :: "'v dict \<Rightarrow> string \<Rightarrow> 'v option" where
  "dict_get d k = map_of d k"

definition has_key :: "'v dict \<Rightarrow> string \<Rightarrow> bool" where
  "has_key d k = (dict_get d k \<noteq> None)"

definition dict_set :: "string \<Rightarrow> 'v \<Rightarrow> 'v dict \<Rightarrow> 'v dict" where
  "dict_set k v d = AList.update k v d"

definition get_val :: "pyval dict \<Rightarrow> string \<Rightarrow> pyval" where
  "get_val d k = (case dict_get d k of None \<Rightarrow> PNone | Some v \<Rightarrow> v)"

section \<open>Module permissions\<close>

text \<open>
  A module permission is the dictionary \<^verbatim>\<open>{enabled, scope, actions{...}, ...}\<close> of the
  permission matrix (\<^verbatim>\<open>SettingsDoc.role_permissions\<close>). Its scalar-valued keys
  (\<^verbatim>\<open>enabled\<close>, \<^verbatim>\<open>scope\<close> and side policies such as \<^verbatim>\<open>field_policy\<close>) are the
  dictionary \<open>scalars\<close>; the one dictionary-valued key \<^verbatim>\<open>actions\<close> is the field
  \<open>actions\<close>, \<open>None\<close> when the key is missing or null. The empty dictionary \<^verbatim>\<open>{}\<close> is
  \<open>empty_perm\<close>. Values have the types the matrix documents (flags and scope scalar,
  \<^verbatim>\<open>actions\<close> a dictionary of flags): on these the Python code raises no type error.
\<close>

record module_perm =
  scalars :: "pyval dict"
  actions :: "pyval dict option"

definition empty_perm :: module_perm where
  "empty_perm = \<lparr>scalars = [], actions = None\<rparr>"

text \<open>\<^verbatim>\<open>p.get("actions") or {}\<close>\<close>

definition actions_or_empty :: "module_perm \<Rightarrow> pyval dict" where
  "actions_or_empty p = (case actions p of None \<Rightarrow> [] | Some d \<Rightarrow> d)"

text \<open>
  \<^verbatim>\<open>_scope_rank\<close>: \<^verbatim>\<open>{"none": 0, None: 0, "own": 1, "team": 2, "all": 3}.get(scope, 0)\<close>.
\<close>

fun scope_rank :: "pyval \<Rightarrow> nat" where
  "scope_rank (PStr s) =
     (if s = ''none'' then 0
      else if s = ''own'' then 1
      else if s = ''team'' then 2
      else if s = ''all'' then 3
      else 0)"
| "scope_rank _ = 0"

text \<open>
  \<^verbatim>\<open>_merge_module_perms(a, b)\<close>, statement by statement: copy \<open>a\<close>; OR the
  \<^verbatim>\<open>enabled\<close> flags when \<open>b\<close> has the key; keep the scope of higher rank (\<open>a\<close>'s on
  a tie); OR the actions of \<open>b\<close> into those of \<open>a\<close>, storing them only when the
  result is not empty; copy every other key of \<open>b\<close> over.
\<close>

definition merge_actions :: "pyval dict \<Rightarrow> pyval dict \<Rightarrow> pyval dict" where
  "merge_actions acts bacts =
     fold (\<lambda>(k, v) acc. dict_set k (PBool (truthy (get_val acc k) \<or> truthy v)) acc) bacts acts"

definition reserved_keys :: "string list" where
  "reserved_keys = [''enabled'', ''scope'', ''actions'']"

definition copy_extra :: "pyval dict \<Rightarrow> module_perm \<Rightarrow> module_perm" where
  "copy_extra bitems out =
     fold (\<lambda>(k, v) acc. if k \<notin> set reserved_keys
                          then acc\<lparr>scalars := dict_set k v (scalars acc)\<rparr> else acc)
          bitems out"

definition merge_module_perms :: "module_perm \<Rightarrow> module_perm \<Rightarrow> module_perm" where
  "merge_module_perms a b =
     (let out1 = (if has_key (scalars b) ''enabled''
                  then a\<lparr>scalars := dict_set ''enabled''
                         (PBool (truthy (get_val (scalars a) ''enabled'')
                                 \<or> truthy (get_val (scalars b) ''enabled''))) (scalars a)\<rparr>
                  else a);
          sa = get_val (scalars out1) ''scope'';
          sb = get_val (scalars b) ''scope'';
          out2 = out1\<lparr>scalars := dict_set ''scope''
                         (if scope_rank sa \<ge> scope_rank sb then sa else sb) (scalars out1)\<rparr>;
          acts = merge_actions (actions_or_empty out2) (actions_or_empty b);
          out3 = (if acts \<noteq> [] then out2\<lparr>actions := Some acts\<rparr> else out2)
      in copy_extra (scalars b) out3)"

section \<open>Users and the effective permission resolver\<close>

text \<open>
  The acting user is the decoded token payload: \<^verbatim>\<open>roles\<close> (present when it is a
  list), the older single \<^verbatim>\<open>role\<close>, and \<^verbatim>\<open>user_id\<close>. \<^verbatim>\<open>_roles\<close> keeps the
  non-empty entries of a non-empty \<^verbatim>\<open>roles\<close> list and otherwise falls back to
  \<^verbatim>\<open>role\<close>; \<^verbatim>\<open>_user_id\<close> is \<^verbatim>\<open>str(user_id or "")\<close>.
\<close>

record current_user =
  payload_roles :: "string list option"
  payload_role :: "string option"
  payload_user_id :: "string option"

definition single_role :: "current_user \<Rightarrow> string list" where
  "single_role cu = (case payload_role cu of None \<Rightarrow> [] | Some r \<Rightarrow> if r \<noteq> [] then [r] else [])"

definition roles :: "current_user \<Rightarrow> string list" where
  "roles cu =
     (case payload_roles cu of
        None \<Rightarrow> single_role cu
      | Some rs \<Rightarrow> if rs \<noteq> [] then filter (\<lambda>x. x \<noteq> []) rs else single_role cu)"

definition user_id :: "current_user \<Rightarrow> string" where
  "user_id cu = (case payload_user_id cu of None \<Rightarrow> [] | Some u \<Rightarrow> u)"

text \<open>
  The permission matrix \<^verbatim>\<open>role_permissions\<close> maps a role to its \<^verbatim>\<open>modules\<close>
  dictionary (module key to module permission); a role without \<^verbatim>\<open>modules\<close> has the
  empty one. The effective permission set is the \<^verbatim>\<open>modules\<close> dictionary that
  \<^verbatim>\<open>_get_effective_permissions\<close> builds, taking the matrix that
  \<^verbatim>\<open>_ensure_settings\<close> returned as its argument.
\<close>

type_synonym role_permissions = "module_perm dict dict"

definition perm_of :: "module_perm dict \<Rightarrow> string \<Rightarrow> module_perm" where
  "perm_of effective module_key =
     (case dict_get effective module_key of None \<Rightarrow> empty_perm | Some p \<Rightarrow> p)"

definition merge_role :: "module_perm dict \<Rightarrow> module_perm dict \<Rightarrow> module_perm dict" where
  "merge_role mods effective =
     fold (\<lambda>(mkey, mp) eff. dict_set mkey (merge_module_perms (perm_of eff mkey) mp) eff)
          mods effective"

definition modules_of :: "role_permissions \<Rightarrow> string \<Rightarrow> module_perm dict" where
  "modules_of role_perms r = (case dict_get role_perms r of None \<Rightarrow> [] | Some mods \<Rightarrow> mods)"

definition get_effective_permissions :: "role_permissions \<Rightarrow> current_user \<Rightarrow> module_perm dict" where
  "get_effective_permissions role_perms cu =
     (let rs = (if roles cu \<noteq> [] then roles cu else [''READ_ONLY''])
      in fold (\<lambda>r eff. merge_role (modules_of role_perms r) eff) rs [])"

text \<open>\<^verbatim>\<open>_has_perm\<close> and \<^verbatim>\<open>_require_perm\<close>; a raised \<^verbatim>\<open>HTTPException\<close> is an error value.\<close>

datatype error = HTTPException nat string | Unhandled string

definition has_perm :: "module_perm dict \<Rightarrow> string \<Rightarrow> string option \<Rightarrow> bool" where
  "has_perm effective module_key action =
     (let m = perm_of effective module_key in
      if \<not> truthy (get_val (scalars m) ''enabled'') then False
      else (case action of
              None \<Rightarrow> True
            | Some k \<Rightarrow> if k = [] then True else truthy (get_val (actions_or_empty m) k)))"

definition require_perm ::
  "role_permissions \<Rightarrow> current_user \<Rightarrow> string \<Rightarrow> string option \<Rightarrow> error + module_perm dict" where
  "require_perm role_perms cu module_key action =
     (let eff = get_effective_permissions role_perms cu in
      if \<not> has_perm eff module_key action then Inl (HTTPException 403 ''Forbidden'')
      else Inr eff)"

text \<open>
  What the authorization check reads off an effective permission set: whether a module
  is enabled, and whether an action of it is granted (a missing module, key or
  action counts as false).
\<close>

definition module_enabled :: "module_perm dict \<Rightarrow> string \<Rightarrow> bool" where
  "module_enabled effective module_key =
     (case dict_get effective module_key of
        None \<Rightarrow> False
      | Some p \<Rightarrow> (case dict_get (scalars p) ''enabled'' of None \<Rightarrow> False | Some v \<Rightarrow> truthy v))"

definition action_granted :: "module_perm dict \<Rightarrow> string \<Rightarrow> string \<Rightarrow> bool" where
  "action_granted effective module_key k =
     (case dict_get effective module_key of
        None \<Rightarrow> False
      | Some p \<Rightarrow> (case actions p of
                    None \<Rightarrow> False
                  | Some acts \<Rightarrow> (case dict_get acts k of None \<Rightarrow> False | Some v \<Rightarrow> truthy v)))"

subsection \<open>The default permission matrix\<close>

text \<open>\<^verbatim>\<open>_default_role_permissions\<close>, role by role, in the order of the source.\<close>

definition flag :: "bool \<Rightarrow> module_perm" where
  "flag b = \<lparr>scalars = [(''enabled'', PBool b)], actions = None\<rparr>"

definition scoped :: "string \<Rightarrow> bool \<Rightarrow> bool \<Rightarrow> bool \<Rightarrow> module_perm" where
  "scoped sc c e d =
     \<lparr>scalars = [(''enabled'', PBool True), (''scope'', PStr sc)],
      actions = Some [(''create'', PBool c), (''edit'', PBool e), (''delete'', PBool d)]\<rparr>"

definition scoped_docs :: "string \<Rightarrow> bool \<Rightarrow> bool \<Rightarrow> module_perm" where
  "scoped_docs sc c d =
     \<lparr>scalars = [(''enabled'', PBool True), (''scope'', PStr sc)],
      actions = Some [(''create'', PBool c), (''delete'', PBool d)]\<rparr>"

definition default_role_permissions :: role_permissions where
  "default_role_permissions =
   [(''ADMIN'',
      [(''dashboard'', flag True),
       (''customers'', scoped ''all'' True True True),
       (''activities'', scoped ''all'' True True True),
       (''risks'', scoped ''all'' True True True),
       (''opportunities'', scoped ''all'' True True True),
       (''tasks'', scoped ''all'' True True True),
       (''datalabs_reports'', scoped ''all'' True True True),
       (''documents'', scoped_docs ''all'' True True),
       (''exports'', flag True), (''users'', flag True), (''settings'', flag True)]),
    (''CS_OPS'',
      [(''dashboard'', flag True),
       (''customers'', scoped ''all'' True True True),
       (''activities'', scoped ''all'' True True True),
       (''risks'', scoped ''all'' True True True),
       (''opportunities'', scoped ''all'' True True True),
       (''tasks'', scoped ''all'' True True True),
       (''datalabs_reports'', scoped ''all'' True True True),
       (''documents'', scoped_docs ''all'' True True),
       (''exports'', flag True), (''users'', flag True), (''settings'', flag True)]),
    (''CS_LEADER'',
      [(''dashboard'', flag True),
       (''customers'', scoped ''all'' True True False),
       (''activities'', scoped ''all'' True True False),
       (''risks'', scoped ''all'' True True False),
       (''opportunities'', scoped ''all'' True True False),
       (''tasks'', scoped ''all'' True True False),
       (''datalabs_reports'', scoped ''all'' True False False),
       (''documents'', scoped_docs ''all'' True False),
       (''exports'', flag True), (''users'', flag True), (''settings'', flag False)]),
    (''CSM'',
      [(''dashboard'', flag True),
       (''customers'', scoped ''own'' True True False),
       (''activities'', scoped ''own'' True True False),
       (''risks'', scoped ''own'' True True False),
       (''opportunities'', scoped ''own'' True True False),
       (''tasks'', scoped ''own'' True True False),
       (''datalabs_reports'', scoped ''own'' True False False),
       (''documents'', scoped_docs ''own'' True True),
       (''exports'', flag False), (''users'', flag False), (''settings'', flag False)]),
    (''AM'',
      [(''dashboard'', flag True),
       (''customers'', scoped ''team'' True True False),
       (''activities'', scoped ''team'' True True False),
       (''risks'', scoped ''team'' True True False),
       (''opportunities'', scoped ''team'' True True False),
       (''tasks'', scoped ''team'' True True False),
       (''datalabs_reports'', scoped ''team'' True False False),
       (''documents'', scoped_docs ''team'' True True),
       (''exports'', flag False), (''users'', flag True), (''settings'', flag False)]),
    (''SALES'',
      [(''dashboard'', flag True),
       (''customers'',
          \<lparr>scalars = [(''enabled'', PBool True), (''scope'', PStr ''all''),
                      (''field_policy'', PStr ''sales_limited'')],
           actions = Some [(''create'', PBool False), (''edit'', PBool False),
                           (''delete'', PBool False)]\<rparr>),
       (''opportunities'', scoped ''all'' False True False),
       (''activities'', flag False), (''risks'', flag False), (''tasks'', flag False),
       (''datalabs_reports'', flag False), (''documents'', flag False),
       (''exports'', flag False), (''users'', flag False), (''settings'', flag False)]),
    (''READ_ONLY'',
      [(''dashboard'', flag True),
       (''customers'', scoped ''own'' False False False),
       (''activities'', scoped ''own'' False False False),
       (''risks'', scoped ''own'' False False False),
       (''opportunities'', scoped ''own'' False False False),
       (''tasks'', scoped ''own'' False False False),
       (''datalabs_reports'', scoped ''own'' False False False),
       (''documents'', scoped_docs ''own'' False False),
       (''exports'', flag False), (''users'', flag False), (''settings'', flag False)])]"

section \<open>Documents and the storage layer\<close>

text \<open>
  A stored document is a dictionary of JSON values (\<open>val\<close>: a scalar, an array or a
  nested object). A collection is the list of its documents in storage order. The
  data filters that the engine hands to storage are MongoDB query dictionaries:
  a key maps to a field condition (equality with a value, or \<^verbatim>\<open>{"$in": [...]}\<close>),
  and the key \<^verbatim>\<open>$or\<close> maps to a list of sub-queries made of field conditions.
  \<open>matches\<close> is MongoDB's matching on this fragment: every clause of the query
  holds; equality holds when the field equals the operand or is an array that
  contains it, and a missing field equals only null.
\<close>

datatype val = Atom pyval | Arr "val list" | Obj "(string \<times> val) list"

type_synonym doc = "val dict"

fun val_truthy :: "val \<Rightarrow> bool" where
  "val_truthy (Atom a) = truthy a"
| "val_truthy (Arr xs) = (xs \<noteq> [])"
| "val_truthy (Obj d) = (d \<noteq> [])"

definition doc_get :: "doc \<Rightarrow> string \<Rightarrow> val" where
  "doc_get d k = (case dict_get d k of None \<Rightarrow> Atom PNone | Some v \<Rightarrow> v)"

datatype fcond = CEq val | CIn "val list"

datatype qval = QField fcond | QOr "fcond dict list"

type_synonym query = "qval dict"

fun mongo_eq :: "val option \<Rightarrow> val \<Rightarrow> bool" where
  "mongo_eq None v = (v = Atom PNone)"
| "mongo_eq (Some (Arr xs)) v = (Arr xs = v \<or> v \<in> set xs)"
| "mongo_eq (Some x) v = (x = v)"

fun field_ok :: "doc \<Rightarrow> string \<Rightarrow> fcond \<Rightarrow> bool" where
  "field_ok d k (CEq v) = mongo_eq (dict_get d k) v"
| "field_ok d k (CIn vs) = list_ex (mongo_eq (dict_get d k)) vs"

definition sub_ok :: "doc \<Rightarrow> fcond dict \<Rightarrow> bool" where
  "sub_ok d sub = list_all (\<lambda>(f, c). field_ok d f c) sub"

fun clause_ok :: "doc \<Rightarrow> string \<times> qval \<Rightarrow> bool" where
  "clause_ok d (k, QField c) = field_ok d k c"
| "clause_ok d (k, QOr subs) = list_ex (sub_ok d) subs"

definition matches :: "doc \<Rightarrow> query \<Rightarrow> bool" where
  "matches d q = list_all (clause_ok d) q"

text \<open>
  \<^verbatim>\<open>find_one(query, {"_id": 0})\<close> is the first matching document (documents are
  modelled without \<^verbatim>\<open>_id\<close>); an inclusion projection keeps the listed fields;
  \<^verbatim>\<open>query.update(other)\<close> stores every entry of \<open>other\<close> into \<open>query\<close>.
\<close>

definition find_one :: "query \<Rightarrow> doc list \<Rightarrow> doc option" where
  "find_one q coll = List.find (\<lambda>d. matches d q) coll"

definition project :: "string list \<Rightarrow> doc \<Rightarrow> doc" where
  "project keep d = filter (\<lambda>(k, v). k \<in> set keep) d"

definition dict_update :: "'v dict \<Rightarrow> 'v dict \<Rightarrow> 'v dict" where
  "dict_update d other = fold (\<lambda>(k, v) acc. dict_set k v acc) other d"

record database =
  db_users :: "doc list"
  db_customers :: "doc list"

section \<open>The scope query translator\<close>

definition ROLE_ADMINISH :: "string list" where
  "ROLE_ADMINISH = [''ADMIN'', ''CS_OPS'', ''CS_LEADER'']"

text \<open>The four filters that \<^verbatim>\<open>_customer_scope_query\<close> can return.\<close>

definition filter_all :: query where
  "filter_all = []"

definition filter_none :: query where
  "filter_none = [(''id'', QField (CEq (Atom (PStr ''__none__''))))]"

definition filter_own :: "string \<Rightarrow> query" where
  "filter_own uid = [(''csm_owner_id'', QField (CEq (Atom (PStr uid))))]"

definition managed_csm_query :: "string \<Rightarrow> query" where
  "managed_csm_query uid =
     [(''manager_id'', QField (CEq (Atom (PStr uid)))),
      (''$or'', QOr [[(''role'', CEq (Atom (PStr ''CSM'')))],
                     [(''roles'', CIn [Atom (PStr ''CSM'')])]])]"

text \<open>
  \<^verbatim>\<open>db.users.find(..., {"_id": 0, "id": 1}).to_list(5000)\<close> followed by
  \<^verbatim>\<open>[u.get("id") for u in managed_csms if u.get("id")]\<close>.
\<close>

definition managed_csm_ids :: "doc list \<Rightarrow> string \<Rightarrow> val list" where
  "managed_csm_ids us uid =
     (let managed_csms =
            take 5000 (map (project [''id'']) (filter (\<lambda>u. matches u (managed_csm_query uid)) us))
      in map (\<lambda>u. doc_get u ''id'') (filter (\<lambda>u. val_truthy (doc_get u ''id'')) managed_csms))"

definition filter_team :: "doc list \<Rightarrow> string \<Rightarrow> query" where
  "filter_team us uid =
     [(''$or'', QOr [[(''am_owner_id'', CEq (Atom (PStr uid)))],
                     [(''csm_owner_id'', CIn (managed_csm_ids us uid))]])]"

text \<open>
  The effective \<^verbatim>\<open>customers\<close> scope read by the translator and the handlers:
  \<^verbatim>\<open>((eff.get("modules") or {}).get("customers") or {}).get("scope")\<close>.
\<close>

definition configured_scope :: "role_permissions \<Rightarrow> current_user \<Rightarrow> pyval" where
  "configured_scope role_perms cu =
     get_val (scalars (perm_of (get_effective_permissions role_perms cu) ''customers'')) ''scope''"


text \<open>
  \<^verbatim>\<open>_customer_scope_query\<close>. The \<^verbatim>\<open>try\<close> around the permission lookup has no
  failing branch here: on a permission matrix of the documented shape the resolver
  does not raise.
\<close>

definition customer_scope_query :: "role_permissions \<Rightarrow> database \<Rightarrow> current_user \<Rightarrow> query" where
  "customer_scope_query role_perms db cu =
     (let rs = set (roles cu); uid = user_id cu in
      if rs \<inter> set ROLE_ADMINISH \<noteq> {} then filter_all
      else
        let sc = configured_scope role_perms cu in
        if ''SALES'' \<in> rs then
          (if sc = PNone \<or> sc = PStr ''all'' then filter_all else filter_none)
        else if sc = PStr ''own'' \<or> (''CSM'' \<in> rs \<and> ''AM'' \<notin> rs) then filter_own uid
        else if sc = PStr ''team'' \<or> ''AM'' \<in> rs then filter_team (db_users db) uid
        else if sc = PStr ''all'' then filter_all
        else filter_none)"


text \<open>\<^verbatim>\<open>_get_customer_or_404\<close>\<close>

definition get_customer_or_404 ::
  "role_permissions \<Rightarrow> database \<Rightarrow> string \<Rightarrow> current_user \<Rightarrow> error + doc" where
  "get_customer_or_404 role_perms db customer_id cu =
     (let query = dict_update [(''id'', QField (CEq (Atom (PStr customer_id))))]
                              (customer_scope_query role_perms db cu)
      in case find_one query (db_customers db) of
           None \<Rightarrow> Inl (HTTPException 404 ''Customer not found'')
         | Some customer \<Rightarrow>
             if customer = [] then Inl (HTTPException 404 ''Customer not found'')
             else Inr customer)"

text \<open>A document has the id \<open>i\<close>: it matches \<^verbatim>\<open>{"id": i}\<close>.\<close>

definition has_id :: "doc \<Rightarrow> string \<Rightarrow> bool" where
  "has_id d i = matches d [(''id'', QField (CEq (Atom (PStr i))))]"

section \<open>The handler environment and the response model\<close>

text \<open>
  What the handlers take from outside the engine is the record \<open>handler_env\<close>:
  the date parser \<^verbatim>\<open>datetime.fromisoformat\<close> (\<open>Inl\<close> the message of its
  \<^verbatim>\<open>ValueError\<close>), the current time as an ISO string and as a datetime value, a
  fresh \<^verbatim>\<open>uuid4\<close>, pydantic's validation of a supplied field value (\<open>Inl\<close> the
  message of its \<^verbatim>\<open>ValidationError\<close>), and the two floating-point scoring
  functions \<^verbatim>\<open>calculate_health_score\<close> and \<^verbatim>\<open>determine_health_status\<close>.
\<close>

record handler_env =
  fromisoformat :: "string \<Rightarrow> string + val"
  now_isoformat :: string
  now_datetime :: val
  new_uuid :: string
  validate_field :: "string \<Rightarrow> val \<Rightarrow> string + val"
  calculate_health_score :: "doc \<Rightarrow> val"
  determine_health_status :: "val \<Rightarrow> val"

text \<open>
  The response model \<^verbatim>\<open>class Customer(BaseModel)\<close> with \<^verbatim>\<open>extra="ignore"\<close>: its
  32 fields in the order of the source, each required, with a default value, or
  with a default factory. \<^verbatim>\<open>Customer(**d)\<close> takes every field from \<open>d\<close> when
  \<open>d\<close> has the key (validated) and from the default otherwise, fails when a
  required field is missing, and ignores the other keys of \<open>d\<close>. The result is
  the model as the dictionary of its fields, which is what the route serialises.
\<close>

datatype field_default = Required | Default val | Factory_uuid | Factory_now

definition customer_schema :: "field_default dict" where
  "customer_schema =
     [(''id'', Factory_uuid),
      (''company_name'', Required),
      (''website'', Default (Atom PNone)),
      (''industry'', Default (Atom PNone)),
      (''region'', Default (Atom PNone)),
      (''plan_type'', Default (Atom PNone)),
      (''arr'', Default (Atom PNone)),
      (''one_time_setup_cost'', Default (Atom PNone)),
      (''quarterly_consumption_cost'', Default (Atom PNone)),
      (''contract_start_date'', Default (Atom PNone)),
      (''contract_end_date'', Default (Atom PNone)),
      (''renewal_date'', Default (Atom PNone)),
      (''go_live_date'', Default (Atom PNone)),
      (''products_purchased'', Default (Arr [])),
      (''onboarding_status'', Default (Atom (PStr ''Not Started''))),
      (''account_status'', Default (Atom (PStr ''Live''))),
      (''health_score'', Default (Atom (PFloat 50))),
      (''health_status'', Default (Atom (PStr ''At Risk''))),
      (''risk_level'', Default (Atom PNone)),
      (''primary_objective'', Default (Atom PNone)),
      (''calls_processed'', Default (Atom (PInt 0))),
      (''active_users'', Default (Atom (PInt 0))),
      (''total_licensed_users'', Default (Atom (PInt 0))),
      (''csm_owner_id'', Default (Atom PNone)),
      (''csm_owner_name'', Default (Atom PNone)),
      (''am_owner_id'', Default (Atom PNone)),
      (''am_owner_name'', Default (Atom PNone)),
      (''tags'', Default (Arr [])),
      (''stakeholders'', Default (Arr [])),
      (''last_activity_date'', Default (Atom PNone)),
      (''created_at'', Factory_now),
      (''updated_at'', Factory_now)]"

fun default_value :: "handler_env \<Rightarrow> field_default \<Rightarrow> val option" where
  "default_value env Required = None"
| "default_value env (Default v) = Some v"
| "default_value env Factory_uuid = Some (Atom (PStr (new_uuid env)))"
| "default_value env Factory_now = Some (now_datetime env)"

definition field_value ::
  "handler_env \<Rightarrow> string \<Rightarrow> field_default \<Rightarrow> val option \<Rightarrow> string + val" where
  "field_value env k dflt given =
     (case given of
        Some v \<Rightarrow> validate_field env k v
      | None \<Rightarrow> (case default_value env dflt of
                   None \<Rightarrow> Inl ''Field required''
                 | Some v \<Rightarrow> Inr v))"

fun build_fields :: "handler_env \<Rightarrow> field_default dict \<Rightarrow> doc \<Rightarrow> string + doc" where
  "build_fields env [] d = Inr []"
| "build_fields env ((k, dflt) # rest) d =
     (case field_value env k dflt (dict_get d k) of
        Inl msg \<Rightarrow> Inl msg
      | Inr v \<Rightarrow> (case build_fields env rest d of
                   Inl msg \<Rightarrow> Inl msg
                 | Inr r \<Rightarrow> Inr ((k, v) # r)))"

definition Customer :: "handler_env \<Rightarrow> doc \<Rightarrow> string + doc" where
  "Customer env d = build_fields env customer_schema d"

text \<open>
  \<^verbatim>\<open>response_model=List[Customer]\<close>: every document the list handler returns
  becomes a \<^verbatim>\<open>Customer\<close>.
\<close>

fun customers_response :: "handler_env \<Rightarrow> doc list \<Rightarrow> string + doc list" where
  "customers_response env [] = Inr []"
| "customers_response env (d # ds) =
     (case Customer env d of
        Inl msg \<Rightarrow> Inl msg
      | Inr r \<Rightarrow> (case customers_response env ds of
                   Inl msg \<Rightarrow> Inl msg
                 | Inr rs \<Rightarrow> Inr (r # rs)))"

text \<open>
  A row carries stored data only in the fields \<open>allowed\<close>: it has exactly the
  fields of the response model, and every field outside \<open>allowed\<close> holds the
  model's default.
\<close>

definition defaults_outside :: "handler_env \<Rightarrow> string list \<Rightarrow> doc \<Rightarrow> bool" where
  "defaults_outside env allowed row =
     (map fst row = map fst customer_schema
      \<and> list_all (\<lambda>(k, dflt). k \<in> set allowed \<or> dict_get row k = default_value env dflt)
           customer_schema)"

section \<open>The customer read handlers\<close>

text \<open>
  \<open>fix_date\<close> is
  \<^verbatim>\<open>if isinstance(c.get(k), str): c[k] = datetime.fromisoformat(c[k])\<close>.
  \<^verbatim>\<open>get_customers\<close> is the route \<^verbatim>\<open>GET /customers\<close>: the handler body, whose
  \<^verbatim>\<open>except Exception\<close> turns a failure of the date parser into 503, followed by
  the route's response model; \<^verbatim>\<open>get_customer\<close> ends with
  \<^verbatim>\<open>return Customer(**customer)\<close>. An exception that nothing catches (a
  \<^verbatim>\<open>ValidationError\<close>, a \<^verbatim>\<open>ValueError\<close> in \<^verbatim>\<open>get_customer\<close>) is the error
  \<open>Unhandled\<close>. The database handle is connected, so
  \<^verbatim>\<open>_check_db_connection\<close> passes.
\<close>

definition fix_date :: "(string \<Rightarrow> string + val) \<Rightarrow> string \<Rightarrow> doc \<Rightarrow> string + doc" where
  "fix_date fromiso k d =
     (case dict_get d k of
        Some (Atom (PStr s)) \<Rightarrow>
          (case fromiso s of Inl msg \<Rightarrow> Inl msg | Inr v \<Rightarrow> Inr (dict_set k v d))
      | _ \<Rightarrow> Inr d)"

definition fix_dates :: "(string \<Rightarrow> string + val) \<Rightarrow> doc \<Rightarrow> string + doc" where
  "fix_dates fromiso d =
     (case fix_date fromiso ''created_at'' d of
        Inl msg \<Rightarrow> Inl msg
      | Inr d' \<Rightarrow> fix_date fromiso ''updated_at'' d')"

fun fix_all :: "(string \<Rightarrow> string + val) \<Rightarrow> doc list \<Rightarrow> string + doc list" where
  "fix_all fromiso [] = Inr []"
| "fix_all fromiso (d # ds) =
     (case fix_dates fromiso d of
        Inl msg \<Rightarrow> Inl msg
      | Inr d' \<Rightarrow> (case fix_all fromiso ds of Inl msg \<Rightarrow> Inl msg | Inr ds' \<Rightarrow> Inr (d' # ds')))"

definition sales_projection :: "string list" where
  "sales_projection =
     [''id'', ''company_name'', ''arr'', ''renewal_date'', ''health_score'', ''health_status'',
      ''account_status'', ''csm_owner_name'', ''am_owner_name'', ''region'', ''industry'']"

definition sales_allowed :: "string list" where
  "sales_allowed =
     [''id'', ''company_name'', ''arr'', ''renewal_date'', ''health_score'', ''health_status'',
      ''account_status'', ''csm_owner_name'', ''am_owner_name'', ''region'', ''industry'']"

definition field_policy :: "module_perm dict \<Rightarrow> pyval" where
  "field_policy eff = get_val (scalars (perm_of eff ''customers'')) ''field_policy''"

definition get_customers ::
  "handler_env \<Rightarrow> role_permissions \<Rightarrow> database \<Rightarrow> current_user \<Rightarrow> error + doc list" where
  "get_customers env role_perms db cu =
     (case require_perm role_perms cu ''customers'' None of
        Inl e \<Rightarrow> Inl e
      | Inr eff \<Rightarrow>
          let scope = customer_scope_query role_perms db cu;
              found = filter (\<lambda>c. matches c scope) (db_customers db);
              projected = (if field_policy eff = PStr ''sales_limited''
                           then map (project sales_projection) found else found);
              customers = take 1000 projected
          in case fix_all (fromisoformat env) customers of
               Inl msg \<Rightarrow> Inl (HTTPException 503 (''Database error: '' @ msg))
             | Inr returned \<Rightarrow>
                 (case customers_response env returned of
                    Inl msg \<Rightarrow> Inl (Unhandled msg)
                  | Inr rows \<Rightarrow> Inr rows))"

definition get_customer ::
  "handler_env \<Rightarrow> role_permissions \<Rightarrow> database \<Rightarrow> string \<Rightarrow> current_user \<Rightarrow> error + doc" where
  "get_customer env role_perms db customer_id cu =
     (case require_perm role_perms cu ''customers'' None of
        Inl e \<Rightarrow> Inl e
      | Inr eff \<Rightarrow>
          (case get_customer_or_404 role_perms db customer_id cu of
             Inl e \<Rightarrow> Inl e
           | Inr customer \<Rightarrow>
               let customer' = (if field_policy eff = PStr ''sales_limited''
                                then filter (\<lambda>(k, v). k \<in> set sales_allowed) customer
                                else customer)
               in case fix_dates (fromisoformat env) customer' of
                    Inl msg \<Rightarrow> Inl (Unhandled msg)
                  | Inr dated \<Rightarrow>
                      (case Customer env dated of
                         Inl msg \<Rightarrow> Inl (Unhandled msg)
                       | Inr row \<Rightarrow> Inr row)))"

section \<open>The customer update handler\<close>

text \<open>
  In \<^verbatim>\<open>update_customer\<close>, \<open>customer_data\<close> is \<^verbatim>\<open>customer_data.model_dump()\<close>. An
  exception that the handler does not catch (\<^verbatim>\<open>KeyError\<close> on \<^verbatim>\<open>csm['name']\<close>
  or \<^verbatim>\<open>updated['created_at']\<close>, a \<^verbatim>\<open>ValueError\<close> of the date parser, a
  \<^verbatim>\<open>ValidationError\<close> of the final \<^verbatim>\<open>Customer(**updated)\<close>) is the error
  \<open>Unhandled\<close>. The handler returns its \<^verbatim>\<open>Customer\<close> together with the database
  after its write.
\<close>

definition id_query :: "val \<Rightarrow> query" where
  "id_query v = [(''id'', QField (CEq v))]"

text \<open>
  \<^verbatim>\<open>if effective.get("csm_owner_id") and not effective.get("am_owner_id")\<close>: map the
  AM owner from the CSM's \<^verbatim>\<open>manager_id\<close>.
\<close>

definition auto_map_am :: "doc list \<Rightarrow> doc \<Rightarrow> doc" where
  "auto_map_am us effective =
     (if val_truthy (doc_get effective ''csm_owner_id'')
         \<and> \<not> val_truthy (doc_get effective ''am_owner_id'')
      then (case find_one (id_query (doc_get effective ''csm_owner_id'')) us of
              None \<Rightarrow> effective
            | Some u \<Rightarrow>
                let csm_user = project [''manager_id''] u in
                if csm_user \<noteq> [] \<and> val_truthy (doc_get csm_user ''manager_id'')
                then dict_set ''am_owner_id'' (doc_get csm_user ''manager_id'') effective
                else effective)
      else effective)"

text \<open>
  \<^verbatim>\<open>name = None; if owner: u = find_one({"id": owner}); if u: name = u['name']\<close>
\<close>

definition owner_name :: "doc list \<Rightarrow> val \<Rightarrow> error + val" where
  "owner_name us owner =
     (if val_truthy owner
      then (case find_one (id_query owner) us of
              None \<Rightarrow> Inr (Atom PNone)
            | Some u \<Rightarrow>
                if u = [] then Inr (Atom PNone)
                else (case dict_get u ''name'' of
                        None \<Rightarrow> Inl (Unhandled ''KeyError'')
                      | Some n \<Rightarrow> Inr n))
      else Inr (Atom PNone))"

definition fill_health :: "handler_env \<Rightarrow> doc \<Rightarrow> doc \<Rightarrow> doc" where
  "fill_health env existing update_dict =
     (let u1 = (if doc_get update_dict ''health_score'' = Atom PNone
                then dict_set ''health_score'' (doc_get existing ''health_score'') update_dict
                else update_dict);
          u2 = (if doc_get u1 ''health_status'' = Atom PNone
                then dict_set ''health_status'' (doc_get existing ''health_status'') u1
                else u1);
          u3 = (if doc_get u2 ''health_score'' = Atom PNone
                then dict_set ''health_score''
                       (calculate_health_score env (dict_update existing u2)) u2
                else u2)
      in if doc_get u3 ''health_status'' = Atom PNone
         then dict_set ''health_status''
                (determine_health_status env (doc_get u3 ''health_score'')) u3
         else u3)"

text \<open>The \<^verbatim>\<open>$set\<close> document that \<^verbatim>\<open>update_customer\<close> builds.\<close>

definition build_update ::
  "handler_env \<Rightarrow> role_permissions \<Rightarrow> database \<Rightarrow> current_user \<Rightarrow> doc \<Rightarrow> doc \<Rightarrow> error + doc" where
  "build_update env role_perms db cu existing customer_data =
     (let effective1 = (if configured_scope role_perms cu = PStr ''own''
                        then dict_set ''csm_owner_id'' (Atom (PStr (user_id cu))) customer_data
                        else customer_data);
          effective2 = auto_map_am (db_users db) effective1
      in case owner_name (db_users db) (doc_get effective2 ''csm_owner_id'') of
           Inl e \<Rightarrow> Inl e
         | Inr csm_name \<Rightarrow>
             (case owner_name (db_users db) (doc_get effective2 ''am_owner_id'') of
                Inl e \<Rightarrow> Inl e
              | Inr am_name \<Rightarrow>
                  Inr (fill_health env existing
                        (dict_set ''updated_at'' (Atom (PStr (now_isoformat env)))
                          (dict_set ''am_owner_name'' am_name
                            (dict_set ''csm_owner_name'' csm_name effective2))))))"

text \<open>
  \<^verbatim>\<open>update_one(query, {"$set": update_dict})\<close> stores every entry of
  \<open>update_dict\<close> into the first matching document.
\<close>

fun update_one :: "query \<Rightarrow> doc \<Rightarrow> doc list \<Rightarrow> doc list" where
  "update_one q update_dict [] = []"
| "update_one q update_dict (d # ds) =
     (if matches d q then dict_update d update_dict # ds
      else d # update_one q update_dict ds)"

text \<open>
  \<^verbatim>\<open>if isinstance(updated[k], str): updated[k] = datetime.fromisoformat(updated[k])\<close>
\<close>

definition strict_fix_date :: "(string \<Rightarrow> string + val) \<Rightarrow> string \<Rightarrow> doc \<Rightarrow> error + doc" where
  "strict_fix_date fromiso k d =
     (case dict_get d k of
        None \<Rightarrow> Inl (Unhandled ''KeyError'')
      | Some (Atom (PStr s)) \<Rightarrow>
          (case fromiso s of Inl msg \<Rightarrow> Inl (Unhandled msg) | Inr v \<Rightarrow> Inr (dict_set k v d))
      | Some _ \<Rightarrow> Inr d)"

definition reload_customer :: "handler_env \<Rightarrow> string \<Rightarrow> doc list \<Rightarrow> error + doc" where
  "reload_customer env customer_id coll =
     (case find_one (id_query (Atom (PStr customer_id))) coll of
        None \<Rightarrow> Inl (Unhandled ''TypeError'')
      | Some updated \<Rightarrow>
          (case strict_fix_date (fromisoformat env) ''created_at'' updated of
             Inl e \<Rightarrow> Inl e
           | Inr updated' \<Rightarrow>
               (case strict_fix_date (fromisoformat env) ''updated_at'' updated' of
                  Inl e \<Rightarrow> Inl e
                | Inr updated'' \<Rightarrow>
                    (case Customer env updated'' of
                       Inl msg \<Rightarrow> Inl (Unhandled msg)
                     | Inr row \<Rightarrow> Inr row))))"

definition update_customer ::
  "handler_env \<Rightarrow> role_permissions \<Rightarrow> database \<Rightarrow> string \<Rightarrow> doc \<Rightarrow> current_user
     \<Rightarrow> (error + doc) \<times> database" where
  "update_customer env role_perms db customer_id customer_data cu =
     (case require_perm role_perms cu ''customers'' (Some ''edit'') of
        Inl e \<Rightarrow> (Inl e, db)
      | Inr eff \<Rightarrow>
          (case find_one (id_query (Atom (PStr customer_id))) (db_customers db) of
             None \<Rightarrow> (Inl (HTTPException 404 ''Customer not found''), db)
           | Some existing \<Rightarrow>
               if existing = [] then (Inl (HTTPException 404 ''Customer not found''), db)
               else
                 (case build_update env role_perms db cu existing customer_data of
                    Inl e \<Rightarrow> (Inl e, db)
                  | Inr update_dict \<Rightarrow>
                      let db' = db\<lparr>db_customers :=
                                  update_one (id_query (Atom (PStr customer_id))) update_dict
                                             (db_customers db)\<rparr>
                      in (reload_customer env customer_id (db_customers db'), db'))))"

section \<open>The settings cache\<close>

text \<open>
  The settings document \<^verbatim>\<open>{"id": "global", ...}\<close> holds the permission matrix
  \<^verbatim>\<open>role_permissions\<close> and the role list \<^verbatim>\<open>roles\<close> (\<open>None\<close> when the key is
  missing or null); its other fields, which play no part in permissions, are the
  dictionary \<open>sd_other\<close>. The server state is the stored settings document and the
  two module globals \<^verbatim>\<open>SETTINGS_CACHE\<close> and \<^verbatim>\<open>SETTINGS_CACHE_TIMESTAMP\<close>; the clock
  reading \<^verbatim>\<open>datetime.now().timestamp()\<close> is the argument \<open>now\<close>, in seconds.
\<close>

record settings_doc =
  sd_role_permissions :: "role_permissions option"
  sd_roles :: "doc list option"
  sd_other :: doc

record server_state =
  settings_store :: "settings_doc option"
  SETTINGS_CACHE :: "settings_doc option"
  SETTINGS_CACHE_TIMESTAMP :: real

definition CACHE_TTL :: real where
  "CACHE_TTL = 300"

definition role_definition :: "string \<Rightarrow> string \<Rightarrow> string \<Rightarrow> doc" where
  "role_definition r n d =
     [(''role'', Atom (PStr r)), (''name'', Atom (PStr n)), (''desc'', Atom (PStr d))]"

definition backfill_roles :: "doc list" where
  "backfill_roles =
     [role_definition ''SALES'' ''Sales (View Only)''
        ''View customers and opportunities (read-only)'',
      role_definition ''READ_ONLY'' ''Read Only'' ''Read-only access within assigned scope'']"

definition default_roles :: "doc list" where
  "default_roles =
     [role_definition ''ADMIN'' ''Administrator'' ''Full access to all features and settings'',
      role_definition ''CSM'' ''Customer Success Manager''
        ''Manage assigned customers, activities, tasks'',
      role_definition ''AM'' ''Account Manager''
        ''View customers, manage opportunities and renewals'',
      role_definition ''CS_LEADER'' ''CS Leadership''
        ''View all customers, reports, team performance'',
      role_definition ''CS_OPS'' ''CS Operations'' ''Manage settings, configurations, reports'',
      role_definition ''SALES'' ''Sales (View Only)''
        ''View customers and opportunities (read-only)'',
      role_definition ''READ_ONLY'' ''Read Only'' ''Read-only access within assigned scope'']"

text \<open>
  The idempotent migrations of \<^verbatim>\<open>_ensure_settings\<close> on an existing document:
  a missing, null or empty permission matrix becomes the default one, and the role
  definitions \<^verbatim>\<open>SALES\<close> and \<^verbatim>\<open>READ_ONLY\<close> are appended where missing. The
  \<^verbatim>\<open>$set\<close> of these updates and the read that follows give the document returned.
\<close>

definition backfill :: "settings_doc \<Rightarrow> settings_doc" where
  "backfill existing =
     (let e1 = (if sd_role_permissions existing = None \<or> sd_role_permissions existing = Some []
                then existing\<lparr>sd_role_permissions := Some default_role_permissions\<rparr>
                else existing);
          existing_roles = (case sd_roles existing of None \<Rightarrow> [] | Some rs \<Rightarrow> rs);
          have = map (\<lambda>r. doc_get r ''role'') existing_roles;
          to_add = filter (\<lambda>rr. doc_get rr ''role'' \<notin> set have) backfill_roles
      in if to_add \<noteq> [] then e1\<lparr>sd_roles := Some (existing_roles @ to_add)\<rparr> else e1)"

text \<open>
  \<^verbatim>\<open>_ensure_settings(force_refresh)\<close>: serve the cached document while it is
  younger than \<^verbatim>\<open>CACHE_TTL\<close>; otherwise read the stored document (creating the
  default one on first access, whose permission-free fields are the parameter
  \<open>default_other\<close>), store it in the cache with the time, and return it.
\<close>

definition ensure_settings ::
  "doc \<Rightarrow> bool \<Rightarrow> real \<Rightarrow> server_state \<Rightarrow> settings_doc \<times> server_state" where
  "ensure_settings default_other force_refresh now s =
     (case (if \<not> force_refresh \<and> now - SETTINGS_CACHE_TIMESTAMP s < CACHE_TTL
            then SETTINGS_CACHE s else None) of
        Some cached \<Rightarrow> (cached, s)
      | None \<Rightarrow>
          (case settings_store s of
             Some existing \<Rightarrow>
               let existing' = backfill existing in
               (existing', s\<lparr>settings_store := Some existing',
                             SETTINGS_CACHE := Some existing',
                             SETTINGS_CACHE_TIMESTAMP := now\<rparr>)
           | None \<Rightarrow>
               let defaults = \<lparr>sd_role_permissions = Some default_role_permissions,
                               sd_roles = Some default_roles,
                               sd_other = default_other\<rparr> in
               (defaults, s\<lparr>settings_store := Some defaults,
                            SETTINGS_CACHE := Some defaults,
                            SETTINGS_CACHE_TIMESTAMP := now\<rparr>)))"

text \<open>
  \<^verbatim>\<open>_get_effective_permissions\<close> on the server state: the settings come from
  \<^verbatim>\<open>_ensure_settings()\<close>, and the matrix is
  \<^verbatim>\<open>(settings or {}).get("role_permissions") or {}\<close>.
\<close>

definition effective_permissions_now ::
  "doc \<Rightarrow> real \<Rightarrow> current_user \<Rightarrow> server_state \<Rightarrow> module_perm dict \<times> server_state" where
  "effective_permissions_now default_other now cu s =
     (let (settings, s') = ensure_settings default_other False now s;
          role_perms = (case sd_role_permissions settings of None \<Rightarrow> [] | Some rp \<Rightarrow> rp)
      in (get_effective_permissions role_perms cu, s'))"

text \<open>
  \<^verbatim>\<open>update_settings\<close> (PUT \<^verbatim>\<open>/settings\<close>). The payload carries the fields that are
  not \<open>None\<close>; \<^verbatim>\<open>merged = {**existing, **update_dict}\<close> is written with
  \<^verbatim>\<open>$set\<close> (upsert) and the stored document is returned. The handler assigns
  neither \<^verbatim>\<open>SETTINGS_CACHE\<close> nor its timestamp.
\<close>

definition ROLE_SETTINGS_ADMIN :: "string list" where
  "ROLE_SETTINGS_ADMIN = [''ADMIN'', ''CS_OPS'']"

definition require_roles :: "current_user \<Rightarrow> string list \<Rightarrow> error + unit" where
  "require_roles cu allowed =
     (if set (roles cu) \<inter> set allowed = {} then Inl (HTTPException 403 ''Forbidden'')
      else Inr ())"

record settings_update =
  su_role_permissions :: "role_permissions option"
  su_roles :: "doc list option"
  su_other :: doc

definition overlay :: "'a option \<Rightarrow> 'a option \<Rightarrow> 'a option" where
  "overlay old new = (case new of None \<Rightarrow> old | Some v \<Rightarrow> Some v)"

definition set_settings :: "settings_doc \<Rightarrow> settings_doc option \<Rightarrow> settings_doc" where
  "set_settings merged stored =
     (case stored of
        None \<Rightarrow> merged
      | Some d \<Rightarrow>
          \<lparr>sd_role_permissions = overlay (sd_role_permissions d) (sd_role_permissions merged),
           sd_roles = overlay (sd_roles d) (sd_roles merged),
           sd_other = dict_update (sd_other d) (sd_other merged)\<rparr>)"

definition update_settings ::
  "doc \<Rightarrow> settings_update \<Rightarrow> current_user \<Rightarrow> real \<Rightarrow> server_state
     \<Rightarrow> (error + settings_doc) \<times> server_state" where
  "update_settings default_other payload cu now s =
     (case require_roles cu ROLE_SETTINGS_ADMIN of
        Inl e \<Rightarrow> (Inl e, s)
      | Inr _ \<Rightarrow>
          let (existing, s1) = ensure_settings default_other False now s;
              merged = \<lparr>sd_role_permissions =
                          overlay (sd_role_permissions existing) (su_role_permissions payload),
                        sd_roles = overlay (sd_roles existing) (su_roles payload),
                        sd_other = dict_update (sd_other existing) (su_other payload)\<rparr>;
              stored = set_settings merged (settings_store s1)
          in (Inr stored, s1\<lparr>settings_store := Some stored\<rparr>))"

text \<open>
  A user document is a direct CSM report of \<open>uid\<close>: its \<^verbatim>\<open>manager_id\<close> is \<open>uid\<close> and it
  holds the role \<^verbatim>\<open>CSM\<close>, in the older \<^verbatim>\<open>role\<close> field or in the \<^verbatim>\<open>roles\<close> list.
\<close>

definition direct_csm_report :: "string \<Rightarrow> doc \<Rightarrow> bool" where
  "direct_csm_report uid u =
     (mongo_eq (dict_get u ''manager_id'') (Atom (PStr uid))
      \<and> (mongo_eq (dict_get u ''role'') (Atom (PStr ''CSM''))
         \<or> mongo_eq (dict_get u ''roles'') (Atom (PStr ''CSM''))))"

section \<open>Example data\<close>

text \<open>
  A small permission matrix, users and collections on which the theorems below are
  instantiated: an account manager \<^verbatim>\<open>am1\<close> who reports to \<^verbatim>\<open>am0\<close> and manages the
  CSM \<^verbatim>\<open>csm1\<close>; customers owned by \<^verbatim>\<open>csm1\<close> and by \<^verbatim>\<open>csm2\<close>.
\<close>

definition ex_matrix :: role_permissions where
  "ex_matrix =
     [(''CSM'', [(''customers'', scoped ''own'' True True False)]),
      (''AM'', [(''customers'', scoped ''team'' True True False)]),
      (''ADMIN'', [(''customers'',
          \<lparr>scalars = [(''enabled'', PBool False), (''scope'', PStr ''own'')], actions = None\<rparr>)]),
      (''AUDITOR'', [(''customers'', scoped ''all'' False False False)]),
      (''SALES'', [(''customers'',
          \<lparr>scalars = [(''enabled'', PBool True), (''scope'', PStr ''all''),
                      (''field_policy'', PStr ''sales_limited'')],
           actions = Some [(''create'', PBool False), (''edit'', PBool False),
                           (''delete'', PBool False)]\<rparr>)])]"

definition ex_user :: "string list \<Rightarrow> string \<Rightarrow> current_user" where
  "ex_user rs uid = \<lparr>payload_roles = Some rs, payload_role = None, payload_user_id = Some uid\<rparr>"

definition ex_users :: "doc list" where
  "ex_users =
     [[(''id'', Atom (PStr ''am0'')), (''name'', Atom (PStr ''Asha'')),
       (''roles'', Arr [Atom (PStr ''AM'')])],
      [(''id'', Atom (PStr ''am1'')), (''name'', Atom (PStr ''Bala'')),
       (''roles'', Arr [Atom (PStr ''AM'')]), (''manager_id'', Atom (PStr ''am0''))],
      [(''id'', Atom (PStr ''csm1'')), (''name'', Atom (PStr ''Chitra'')),
       (''role'', Atom (PStr ''CSM'')), (''roles'', Arr [Atom (PStr ''CSM'')]),
       (''manager_id'', Atom (PStr ''am1''))]]"

definition ex_c3 :: doc where
  "ex_c3 = [(''id'', Atom (PStr ''c3'')), (''company_name'', Atom (PStr ''Cedar'')),
            (''csm_owner_id'', Atom (PStr ''csm1''))]"

definition ex_customers :: "doc list" where
  "ex_customers =
     [[(''id'', Atom (PStr ''c1'')), (''company_name'', Atom (PStr ''Acme'')),
       (''website'', Atom (PStr ''acme.example'')),
       (''stakeholders'', Arr [Obj [(''name'', Atom (PStr ''Dev''))]]),
       (''arr'', Atom (PInt 1000)),
       (''csm_owner_id'', Atom (PStr ''csm1'')), (''am_owner_id'', Atom (PStr ''am1''))],
      [(''id'', Atom (PStr ''c2'')), (''company_name'', Atom (PStr ''Birch'')),
       (''website'', Atom (PStr ''birch.example'')),
       (''csm_owner_id'', Atom (PStr ''csm2'')), (''am_owner_id'', Atom PNone),
       (''created_at'', Atom (PStr ''2025-01-01T00:00:00+00:00''))],
      ex_c3]"

definition ex_db :: database where
  "ex_db = \<lparr>db_users = ex_users, db_customers = ex_customers\<rparr>"

definition ex_env :: handler_env where
  "ex_env = \<lparr>fromisoformat = (\<lambda>s. Inr (Atom (PStr s))),
            now_isoformat = ''2026-01-01T00:00:00+00:00'',
            now_datetime = Atom (PStr ''2026-01-01T00:00:00+00:00''),
            new_uuid = ''00000000-0000-4000-8000-000000000000'',
            validate_field = (\<lambda>k v. Inr v),
            calculate_health_score = (\<lambda>d. Atom (PInt 50)),
            determine_health_status = (\<lambda>v. Atom (PStr ''At Risk''))\<rparr>"

definition ex_customer_data :: doc where
  "ex_customer_data =
     [(''company_name'', Atom (PStr ''Birch'')), (''website'', Atom (PStr ''birch.example'')),
      (''csm_owner_id'', Atom (PStr ''csm2'')), (''am_owner_id'', Atom PNone),
      (''health_status'', Atom PNone), (''health_score'', Atom PNone)]"

text \<open>
  A server whose stored matrix is \<open>ex_matrix\<close> and whose cache is still empty, and an
  administrator's update that disables \<^verbatim>\<open>customers\<close> for the role \<^verbatim>\<open>CSM\<close>.
\<close>

definition ex_state :: server_state where
  "ex_state =
     \<lparr>settings_store = Some \<lparr>sd_role_permissions = Some ex_matrix,
                               sd_roles = Some default_roles, sd_other = []\<rparr>,
      SETTINGS_CACHE = None, SETTINGS_CACHE_TIMESTAMP = 0\<rparr>"

definition ex_revoked :: role_permissions where
  "ex_revoked = [(''CSM'', [(''customers'', flag False)])]"

definition ex_payload :: settings_update where
  "ex_payload = \<lparr>su_role_permissions = Some ex_revoked, su_roles = None, su_other = []\<rparr>"

text \<open>
  The run: a CSM's permissions are evaluated at time 1000 (which fills the cache),
  the administrator's update is acknowledged at time 1010, and the CSM's
  permissions are evaluated again at time 1020.
\<close>

definition ex_state_loaded :: server_state where
  "ex_state_loaded = snd (effective_permissions_now [] 1000 (ex_user [''CSM''] ''csm1'') ex_state)"

definition ex_state_updated :: server_state where
  "ex_state_updated =
     snd (update_settings [] ex_payload (ex_user [''ADMIN''] ''adm'') 1010 ex_state_loaded)"

text \<open>
  A manager \<^verbatim>\<open>am1\<close> with 5001 direct CSM reports, and a customer owned by the last
  of them in storage order.
\<close>

definition report_id :: "nat \<Rightarrow> string" where
  "report_id n = replicate (Suc n) CHR ''r''"

definition report_no :: "nat \<Rightarrow> doc" where
  "report_no n = [(''id'', Atom (PStr (report_id n))), (''role'', Atom (PStr ''CSM'')),
                  (''manager_id'', Atom (PStr ''am1''))]"

definition ex_many_reports :: "doc list" where
  "ex_many_reports = map report_no [0..<5001]"

definition ex_far_customer :: doc where
  "ex_far_customer = [(''id'', Atom (PStr ''c9'')), (''csm_owner_id'', Atom (PStr (report_id 5000)))]"

definition ex_big_db :: database where
  "ex_big_db = \<lparr>db_users = ex_many_reports, db_customers = [ex_far_customer]\<rparr>"




section \<open>Lemmas on dictionaries and the merger\<close>

lemma dict_get_set: "dict_get (dict_set k v d) k' = (if k' = k then Some v else dict_get d k')"
  by (simp add: dict_get_def dict_set_def update_conv')

lemma get_val_set: "get_val (dict_set k v d) k' = (if k' = k then v else get_val d k')"
  by (simp add: get_val_def dict_get_set)

lemma copy_extra_reserved:
  "k \<in> set reserved_keys \<Longrightarrow> get_val (scalars (copy_extra bs out)) k = get_val (scalars out) k"
  unfolding copy_extra_def
  by (induction bs arbitrary: out) (auto simp: get_val_set)

lemma has_perm_char:
  "has_perm eff m a
     = (module_enabled eff m \<and> (\<forall>k. a = Some k \<and> k \<noteq> [] \<longrightarrow> action_granted eff m k))"
  by (auto simp: has_perm_def module_enabled_def action_granted_def perm_of_def get_val_def
        actions_or_empty_def empty_perm_def dict_get_def Let_def split: option.splits)

lemma roles_read_only:
  "roles \<lparr>payload_roles = Some [''READ_ONLY''], payload_role = None, payload_user_id = u\<rparr>
     = [''READ_ONLY'']"
  by (simp add: roles_def)

lemma roles_ex_user: "roles (ex_user rs uid) = (if rs \<noteq> [] then filter (\<lambda>x. x \<noteq> []) rs else [])"
  by (simp add: roles_def ex_user_def single_role_def)

lemma user_id_ex_user: "user_id (ex_user rs uid) = uid"
  by (simp add: user_id_def ex_user_def)

section \<open>Lemmas on the scope query and the scoped fetch\<close>


lemma has_id_nonempty: "has_id c i \<Longrightarrow> c \<noteq> []"
  by (auto simp: has_id_def matches_def dict_get_def)









lemma find_some_pred: "List.find P xs = Some x \<Longrightarrow> P x"
  by (induction xs) (auto split: if_splits)

section \<open>Lemmas on the team filter\<close>

lemma dict_get_project: "dict_get (project ks d) k = (if k \<in> set ks then dict_get d k else None)"
  unfolding dict_get_def project_def
  by (induction d) auto

lemma doc_get_project_id: "doc_get (project [''id''] u) ''id'' = doc_get u ''id''"
  by (simp add: doc_get_def dict_get_project)

lemma matches_managed: "matches u (managed_csm_query uid) = direct_csm_report uid u"
  by (simp add: managed_csm_query_def matches_def direct_csm_report_def sub_ok_def)

lemma matches_team:
  "matches c (filter_team us uid)
     = (mongo_eq (dict_get c ''am_owner_id'') (Atom (PStr uid))
        \<or> (\<exists>v \<in> set (managed_csm_ids us uid). mongo_eq (dict_get c ''csm_owner_id'') v))"
  by (simp add: filter_team_def matches_def sub_ok_def list_ex_iff)

lemma managed_ids_sound:
  assumes "v \<in> set (managed_csm_ids us uid)"
  shows "\<exists>u \<in> set us. direct_csm_report uid u \<and> doc_get u ''id'' = v"
proof -
  from assms obtain p where p: "p \<in> set (take 5000 (map (project [''id''])
        (filter (\<lambda>u. matches u (managed_csm_query uid)) us)))" "doc_get p ''id'' = v"
    by (auto simp: managed_csm_ids_def Let_def)
  from p(1) have "p \<in> set (map (project [''id'']) (filter (\<lambda>u. matches u (managed_csm_query uid)) us))"
    by (rule in_set_takeD)
  then obtain u where "u \<in> set us" "matches u (managed_csm_query uid)" "p = project [''id''] u"
    by auto
  with p(2) show ?thesis
    by (auto simp: matches_managed doc_get_project_id)
qed

lemma managed_ids_complete:
  assumes "length (filter (direct_csm_report uid) us) \<le> 5000"
    and "u \<in> set us" and "direct_csm_report uid u" and "val_truthy (doc_get u ''id'')"
  shows "doc_get u ''id'' \<in> set (managed_csm_ids us uid)"
proof -
  let ?ps = "map (project [''id'']) (filter (direct_csm_report uid) us)"
  have f: "filter (\<lambda>u. matches u (managed_csm_query uid)) us = filter (direct_csm_report uid) us"
    by (simp add: matches_managed)
  have t: "take 5000 ?ps = ?ps"
    using assms(1) by simp
  have ids: "managed_csm_ids us uid
               = map (\<lambda>p. doc_get p ''id'') (filter (\<lambda>p. val_truthy (doc_get p ''id'')) ?ps)"
    unfolding managed_csm_ids_def Let_def f t ..
  have "project [''id''] u \<in> set (filter (\<lambda>p. val_truthy (doc_get p ''id'')) ?ps)"
    using assms(2,3,4) by (simp add: doc_get_project_id)
  then have "doc_get (project [''id''] u) ''id'' \<in> set (managed_csm_ids us uid)"
    unfolding ids set_map by (rule imageI)
  then show ?thesis
    by (simp add: doc_get_project_id)
qed

lemma report_id_inj: "(report_id m = report_id n) = (m = n)"
  by (simp add: report_id_def)

lemma report_direct: "direct_csm_report ''am1'' (report_no n)"
  by (simp add: direct_csm_report_def report_no_def dict_get_def)

lemma report_projected: "project [''id''] (report_no n) = [(''id'', Atom (PStr (report_id n)))]"
  by (simp add: project_def report_no_def)

lemma report_id_truthy: "val_truthy (doc_get [(''id'', Atom (PStr (report_id n)))] ''id'')"
  by (simp add: doc_get_def dict_get_def report_id_def)

lemma many_reports_ids:
  "managed_csm_ids ex_many_reports ''am1'' = map (\<lambda>n. Atom (PStr (report_id n))) [0..<5000]"
proof -
  have f: "filter (\<lambda>u. matches u (managed_csm_query ''am1'')) ex_many_reports = ex_many_reports"
    unfolding ex_many_reports_def by (simp add: matches_managed report_direct)
  have p: "map (project [''id'']) ex_many_reports
             = map (\<lambda>n. [(''id'', Atom (PStr (report_id n)))]) [0..<5001]"
    unfolding ex_many_reports_def by (simp add: report_projected)
  have t: "take 5000 (map (\<lambda>n. [(''id'', Atom (PStr (report_id n)))]) [0..<5001])
             = map (\<lambda>n. [(''id'', Atom (PStr (report_id n)))]) [0..<5000]"
    by (simp only: take_map take_upt add_0 numeral_le_iff semiring_norm)
  have g: "filter (\<lambda>u. val_truthy (doc_get u ''id''))
              (map (\<lambda>n. [(''id'', Atom (PStr (report_id n)))]) [0..<5000])
             = map (\<lambda>n. [(''id'', Atom (PStr (report_id n)))]) [0..<5000]"
    by (simp add: report_id_truthy)
  show ?thesis
    unfolding managed_csm_ids_def Let_def f p t g
    by (simp add: doc_get_def dict_get_def)
qed

section \<open>Lemmas on field projection\<close>

lemma keys_project: "fst ` set (project ks d) \<subseteq> set ks"
  by (auto simp: project_def)

lemma keys_filter_allowed: "fst ` set (filter (\<lambda>(k, v). k \<in> set ks) d) \<subseteq> set ks"
  by auto

lemma keys_dict_set: "fst ` set (dict_set k v d) = insert k (fst ` set d)"
  unfolding dict_set_def
  by (induction d) auto

lemma has_key_in_keys: "dict_get d k = Some v \<Longrightarrow> k \<in> fst ` set d"
  unfolding dict_get_def
  by (rule map_of_SomeD [THEN imageI [where f = fst], simplified])

lemma fix_date_cases:
  assumes "fix_date fromiso k d = Inr d'"
  shows "d' = d \<or> (\<exists>v w. d' = dict_set k v d \<and> dict_get d k = Some w)"
proof (cases "dict_get d k")
  case None
  with assms show ?thesis by (simp add: fix_date_def)
next
  case (Some x)
  show ?thesis
  proof (cases x)
    case (Atom a)
    show ?thesis
    proof (cases a)
      case (PStr s)
      show ?thesis
      proof (cases "fromiso s")
        case (Inl msg)
        with assms Some Atom PStr show ?thesis by (simp add: fix_date_def)
      next
        case (Inr v)
        with assms Some Atom PStr show ?thesis by (auto simp: fix_date_def)
      qed
    qed (use assms Some Atom in \<open>simp_all add: fix_date_def\<close>)
  qed (use assms Some in \<open>simp_all add: fix_date_def\<close>)
qed

lemma keys_fix_date:
  assumes "fix_date fromiso k d = Inr d'"
  shows "fst ` set d' = fst ` set d"
proof -
  from fix_date_cases [OF assms] show ?thesis
  proof
    assume "d' = d"
    then show ?thesis by simp
  next
    assume "\<exists>v w. d' = dict_set k v d \<and> dict_get d k = Some w"
    then obtain v w where d': "d' = dict_set k v d" and g: "dict_get d k = Some w"
      by blast
    from has_key_in_keys [OF g] have "insert k (fst ` set d) = fst ` set d"
      by (rule insert_absorb)
    then show ?thesis
      unfolding d' keys_dict_set .
  qed
qed

lemma keys_fix_dates:
  assumes "fix_dates fromiso d = Inr d'"
  shows "fst ` set d' = fst ` set d"
proof -
  from assms obtain d1 where a: "fix_date fromiso ''created_at'' d = Inr d1"
    and b: "fix_date fromiso ''updated_at'' d1 = Inr d'"
    by (auto simp: fix_dates_def split: sum.splits)
  show ?thesis
    using keys_fix_date [OF a] keys_fix_date [OF b] by simp
qed

lemma fix_all_cons:
  assumes "fix_all fromiso (d # ds) = Inr rows"
  shows "\<exists>d' ds'. fix_dates fromiso d = Inr d' \<and> fix_all fromiso ds = Inr ds' \<and> rows = d' # ds'"
proof (cases "fix_dates fromiso d")
  case (Inl msg)
  with assms show ?thesis by simp
next
  case d: (Inr d')
  show ?thesis
  proof (cases "fix_all fromiso ds")
    case (Inl msg)
    with assms d show ?thesis by simp
  next
    case (Inr ds')
    with assms d show ?thesis by simp
  qed
qed

lemma keys_fix_all:
  assumes "fix_all fromiso ds = Inr rows" and "\<forall>d \<in> set ds. fst ` set d \<subseteq> A"
  shows "\<forall>row \<in> set rows. fst ` set row \<subseteq> A"
  using assms
proof (induction ds arbitrary: rows)
  case Nil
  then show ?case by simp
next
  case (Cons d ds)
  from fix_all_cons [OF Cons.prems(1)] obtain d' ds' where
    d: "fix_dates fromiso d = Inr d'" and ds: "fix_all fromiso ds = Inr ds'" and
    rows: "rows = d' # ds'"
    by blast
  have "fst ` set d' \<subseteq> A"
    unfolding keys_fix_dates [OF d] using Cons.prems(2) by simp
  moreover have "\<forall>row \<in> set ds'. fst ` set row \<subseteq> A"
    using Cons.IH [OF ds] Cons.prems(2) by simp
  ultimately show ?case
    unfolding rows by simp
qed

lemma absent_key: "k \<notin> fst ` set d \<Longrightarrow> dict_get d k = None"
  by (simp add: dict_get_def map_of_eq_None_iff)

lemma require_perm_Inr: "require_perm rp cu m a = Inr eff \<Longrightarrow> eff = get_effective_permissions rp cu"
  by (simp add: require_perm_def Let_def split: if_splits)

lemma build_fields_cons:
  assumes "build_fields env ((k, dflt) # rest) d = Inr r"
  shows "\<exists>v r'. field_value env k dflt (dict_get d k) = Inr v
                \<and> build_fields env rest d = Inr r' \<and> r = (k, v) # r'"
proof (cases "field_value env k dflt (dict_get d k)")
  case (Inl msg)
  with assms show ?thesis by simp
next
  case v: (Inr v)
  show ?thesis
  proof (cases "build_fields env rest d")
    case (Inl msg)
    with assms v show ?thesis by simp
  next
    case (Inr r')
    with assms v show ?thesis by simp
  qed
qed

lemma build_fields_keys: "build_fields env sch d = Inr r \<Longrightarrow> map fst r = map fst sch"
proof (induction sch arbitrary: r)
  case Nil
  then show ?case by simp
next
  case (Cons p sch)
  obtain k dflt where p: "p = (k, dflt)" by (cases p)
  from Cons.prems obtain v r' where
    "build_fields env sch d = Inr r'" "r = (k, v) # r'"
    unfolding p using build_fields_cons by blast
  with Cons.IH [of r'] show ?case by (simp add: p)
qed

lemma field_value_absent:
  "field_value env k dflt None = Inr v \<Longrightarrow> default_value env dflt = Some v"
  by (cases "default_value env dflt") (simp_all add: field_value_def)

lemma build_fields_absent:
  assumes "build_fields env sch d = Inr r" and "dict_get d k = None"
  shows "dict_get r k
           = (case dict_get sch k of None \<Rightarrow> None | Some dflt \<Rightarrow> default_value env dflt)"
  using assms(1)
proof (induction sch arbitrary: r)
  case Nil
  then show ?case by (simp add: dict_get_def)
next
  case (Cons p sch)
  obtain k0 dflt0 where p: "p = (k0, dflt0)" by (cases p)
  from Cons.prems obtain v r' where
    f: "field_value env k0 dflt0 (dict_get d k0) = Inr v" and
    b: "build_fields env sch d = Inr r'" and r: "r = (k0, v) # r'"
    unfolding p using build_fields_cons by blast
  show ?case
  proof (cases "k = k0")
    case True
    with f assms(2) have "default_value env dflt0 = Some v"
      by (simp add: field_value_absent)
    with True show ?thesis by (simp add: r p dict_get_def)
  next
    case False
    with Cons.IH [OF b] show ?thesis by (simp add: r p dict_get_def)
  qed
qed

lemma customer_schema_distinct: "distinct (map fst customer_schema)"
  by code_simp

lemma Customer_defaults:
  assumes "Customer env d = Inr r" and "fst ` set d \<subseteq> set allowed"
  shows "defaults_outside env allowed r"
proof -
  have keys: "map fst r = map fst customer_schema"
    using assms(1) unfolding Customer_def by (rule build_fields_keys)
  have "k \<in> set allowed \<or> dict_get r k = default_value env dflt"
    if m: "(k, dflt) \<in> set customer_schema" for k dflt
  proof (cases "k \<in> set allowed")
    case True
    then show ?thesis ..
  next
    case False
    with assms(2) have "k \<notin> fst ` set d" by blast
    then have "dict_get d k = None" by (rule absent_key)
    with assms(1) have "dict_get r k
        = (case dict_get customer_schema k of None \<Rightarrow> None | Some dflt \<Rightarrow> default_value env dflt)"
      unfolding Customer_def by (rule build_fields_absent)
    moreover have "dict_get customer_schema k = Some dflt"
      unfolding dict_get_def using customer_schema_distinct m by (rule map_of_is_SomeI)
    ultimately show ?thesis by simp
  qed
  then have "list_all (\<lambda>(k, dflt). k \<in> set allowed \<or> dict_get r k = default_value env dflt)
               customer_schema"
    unfolding list_all_iff by blast
  with keys show ?thesis
    unfolding defaults_outside_def by blast
qed

lemma defaults_outside_field:
  assumes "defaults_outside env allowed r" and "dict_get customer_schema k = Some dflt"
    and "k \<notin> set allowed"
  shows "dict_get r k = default_value env dflt"
proof -
  from assms(2) have "(k, dflt) \<in> set customer_schema"
    unfolding dict_get_def by (rule map_of_SomeD)
  with assms(1,3) show ?thesis
    unfolding defaults_outside_def list_all_iff by blast
qed

lemma customers_response_cons:
  assumes "customers_response env (d # ds) = Inr rows"
  shows "\<exists>r rs. Customer env d = Inr r \<and> customers_response env ds = Inr rs \<and> rows = r # rs"
proof (cases "Customer env d")
  case (Inl msg)
  with assms show ?thesis by simp
next
  case r: (Inr r)
  show ?thesis
  proof (cases "customers_response env ds")
    case (Inl msg)
    with assms r show ?thesis by simp
  next
    case (Inr rs)
    with assms r show ?thesis by simp
  qed
qed

lemma customers_response_rows:
  assumes "customers_response env ds = Inr rows"
  shows "\<forall>row \<in> set rows. \<exists>d \<in> set ds. Customer env d = Inr row"
  using assms
proof (induction ds arbitrary: rows)
  case Nil
  then show ?case by simp
next
  case (Cons d ds)
  from customers_response_cons [OF Cons.prems] obtain r rs where
    r: "Customer env d = Inr r" and rs: "customers_response env ds = Inr rs" and
    rows: "rows = r # rs"
    by blast
  from Cons.IH [OF rs] r show ?case
    unfolding rows by auto
qed

lemma get_customers_sales:
  assumes "field_policy (get_effective_permissions rp cu) = PStr ''sales_limited''"
    and "get_customers env rp db cu = Inr rows"
  shows "\<exists>returned.
           fix_all (fromisoformat env) (take 1000 (map (project sales_projection)
             (filter (\<lambda>c. matches c (customer_scope_query rp db cu)) (db_customers db))))
             = Inr returned
           \<and> customers_response env returned = Inr rows"
proof (cases "require_perm rp cu ''customers'' None")
  case (Inl e)
  with assms(2) show ?thesis by (simp add: get_customers_def)
next
  case (Inr eff)
  then have eff: "eff = get_effective_permissions rp cu"
    by (rule require_perm_Inr)
  let ?cs = "take 1000 (map (project sales_projection)
           (filter (\<lambda>c. matches c (customer_scope_query rp db cu)) (db_customers db)))"
  show ?thesis
  proof (cases "fix_all (fromisoformat env) ?cs")
    case (Inl msg)
    with assms Inr eff show ?thesis by (simp add: get_customers_def Let_def)
  next
    case r: (Inr returned)
    show ?thesis
    proof (cases "customers_response env returned")
      case (Inl msg)
      with assms Inr eff r show ?thesis by (simp add: get_customers_def Let_def)
    next
      case o: (Inr out)
      with assms Inr eff r have "out = rows" by (simp add: get_customers_def Let_def)
      with r o show ?thesis by blast
    qed
  qed
qed

lemma get_customer_sales:
  assumes "field_policy (get_effective_permissions rp cu) = PStr ''sales_limited''"
    and "get_customer env rp db i cu = Inr r"
  shows "\<exists>c dated. fix_dates (fromisoformat env) (filter (\<lambda>(k, v). k \<in> set sales_allowed) c)
                      = Inr dated
                   \<and> Customer env dated = Inr r"
proof (cases "require_perm rp cu ''customers'' None")
  case (Inl e)
  with assms(2) show ?thesis by (simp add: get_customer_def)
next
  case (Inr eff)
  then have eff: "eff = get_effective_permissions rp cu"
    by (rule require_perm_Inr)
  show ?thesis
  proof (cases "get_customer_or_404 rp db i cu")
    case (Inl e)
    with assms(2) Inr show ?thesis by (simp add: get_customer_def)
  next
    case c: (Inr c)
    show ?thesis
    proof (cases "fix_dates (fromisoformat env) (filter (\<lambda>(k, v). k \<in> set sales_allowed) c)")
      case (Inl msg)
      with assms Inr eff c show ?thesis by (simp add: get_customer_def Let_def)
    next
      case d: (Inr dated)
      show ?thesis
      proof (cases "Customer env dated")
        case (Inl msg)
        with assms Inr eff c d show ?thesis by (simp add: get_customer_def Let_def)
      next
        case m: (Inr r')
        with assms Inr eff c d have "r' = r" by (simp add: get_customer_def Let_def)
        with d m show ?thesis by blast
      qed
    qed
  qed
qed

section \<open>Lemmas on the customer update\<close>

lemma has_id_query: "matches d (id_query (Atom (PStr i))) = has_id d i"
  by (simp add: id_query_def has_id_def)

lemma find_by_id_None:
  "(find_one (id_query (Atom (PStr i))) coll = None) = (\<forall>c \<in> set coll. \<not> has_id c i)"
  by (auto simp: find_one_def find_None_iff has_id_query)

lemma find_by_id_Some:
  assumes "find_one (id_query (Atom (PStr i))) coll = Some d"
  shows "has_id d i" and "d \<in> set coll" and "d \<noteq> []"
proof -
  from assms have "matches d (id_query (Atom (PStr i)))"
    unfolding find_one_def by (rule find_some_pred)
  then show h: "has_id d i" by (simp add: has_id_query)
  from assms show "d \<in> set coll"
    unfolding find_one_def by (auto simp: find_Some_iff)
  from h show "d \<noteq> []" by (rule has_id_nonempty)
qed

lemma owner_name_error: "owner_name us v = Inl e \<Longrightarrow> e = Unhandled ''KeyError''"
  by (auto simp: owner_name_def split: if_splits option.splits)

lemma build_update_error:
  assumes "build_update env rp db cu existing data = Inl e"
  shows "e = Unhandled ''KeyError''"
proof -
  let ?e2 = "auto_map_am (db_users db)
               (if configured_scope rp cu = PStr ''own''
                then dict_set ''csm_owner_id'' (Atom (PStr (user_id cu))) data else data)"
  show ?thesis
  proof (cases "owner_name (db_users db) (doc_get ?e2 ''csm_owner_id'')")
    case (Inl e')
    with assms have "e' = e" by (simp add: build_update_def Let_def)
    with Inl show ?thesis by (simp add: owner_name_error)
  next
    case c: (Inr csm_name)
    show ?thesis
    proof (cases "owner_name (db_users db) (doc_get ?e2 ''am_owner_id'')")
      case (Inl e')
      with assms c have "e' = e" by (simp add: build_update_def Let_def)
      with Inl show ?thesis by (simp add: owner_name_error)
    next
      case (Inr am_name)
      with assms c show ?thesis by (simp add: build_update_def Let_def)
    qed
  qed
qed

lemma strict_fix_date_error: "strict_fix_date f k d = Inl e \<Longrightarrow> \<exists>m. e = Unhandled m"
proof (cases "dict_get d k")
  case None
  assume "strict_fix_date f k d = Inl e"
  with None show ?thesis by (auto simp: strict_fix_date_def)
next
  case (Some x)
  assume a: "strict_fix_date f k d = Inl e"
  show ?thesis
  proof (cases x)
    case (Atom p)
    show ?thesis
    proof (cases p)
      case (PStr s)
      with a Some Atom show ?thesis
        by (cases "f s") (auto simp: strict_fix_date_def)
    qed (use a Some Atom in \<open>auto simp: strict_fix_date_def\<close>)
  qed (use a Some in \<open>auto simp: strict_fix_date_def\<close>)
qed

lemma reload_customer_error:
  assumes "reload_customer env i coll = Inl e"
  shows "\<exists>m. e = Unhandled m"
proof (cases "find_one (id_query (Atom (PStr i))) coll")
  case None
  with assms show ?thesis by (auto simp: reload_customer_def)
next
  case (Some u)
  show ?thesis
  proof (cases "strict_fix_date (fromisoformat env) ''created_at'' u")
    case (Inl e')
    with assms Some have "e' = e" by (simp add: reload_customer_def)
    with Inl show ?thesis by (auto dest: strict_fix_date_error)
  next
    case c: (Inr u')
    show ?thesis
    proof (cases "strict_fix_date (fromisoformat env) ''updated_at'' u'")
      case (Inl e')
      with assms Some c have "e' = e" by (simp add: reload_customer_def)
      with Inl show ?thesis by (auto dest: strict_fix_date_error)
    next
      case d: (Inr u'')
      show ?thesis
      proof (cases "Customer env u''")
        case (Inl msg)
        with assms Some c d show ?thesis by (auto simp: reload_customer_def)
      next
        case (Inr row)
        with assms Some c d show ?thesis by (simp add: reload_customer_def)
      qed
    qed
  qed
qed

lemma update_one_first:
  assumes "find_one q coll = Some d"
  shows "\<exists>pre post. coll = pre @ d # post \<and> update_one q u coll = pre @ dict_update d u # post"
  using assms
proof (induction coll)
  case Nil
  then show ?case by (simp add: find_one_def)
next
  case (Cons x xs)
  show ?case
  proof (cases "matches x q")
    case True
    with Cons.prems have "x = d" by (simp add: find_one_def)
    with True have "x # xs = [] @ d # xs \<and> update_one q u (x # xs) = [] @ dict_update d u # xs"
      by simp
    then show ?thesis by blast
  next
    case False
    with Cons.prems have "find_one q xs = Some d" by (simp add: find_one_def)
    from Cons.IH [OF this] obtain pre post where
      "xs = pre @ d # post" "update_one q u xs = pre @ dict_update d u # post"
      by blast
    with False have "x # xs = (x # pre) @ d # post
        \<and> update_one q u (x # xs) = (x # pre) @ dict_update d u # post"
      by simp
    then show ?thesis by blast
  qed
qed


lemma dict_get_auto_map:
  "k \<noteq> ''am_owner_id'' \<Longrightarrow> dict_get (auto_map_am us e) k = dict_get e k"
  by (simp add: auto_map_am_def Let_def dict_get_set split: option.splits)

lemma dict_get_fill_health:
  "k \<noteq> ''health_score'' \<Longrightarrow> k \<noteq> ''health_status''
     \<Longrightarrow> dict_get (fill_health env ex u) k = dict_get u k"
  by (simp add: fill_health_def Let_def dict_get_set)

lemma distinct_dict_set: "distinct (map fst d) \<Longrightarrow> distinct (map fst (dict_set k v d))"
  unfolding dict_set_def by (rule distinct_update)

lemma distinct_auto_map: "distinct (map fst e) \<Longrightarrow> distinct (map fst (auto_map_am us e))"
  by (simp add: auto_map_am_def Let_def distinct_dict_set split: option.splits)

lemma distinct_fill_health: "distinct (map fst u) \<Longrightarrow> distinct (map fst (fill_health env ex u))"
  by (simp add: fill_health_def Let_def distinct_dict_set)

lemma build_update_Inr:
  assumes "build_update env rp db cu existing data = Inr upd"
  shows "\<exists>csm_name am_name.
          upd = fill_health env existing
                  (dict_set ''updated_at'' (Atom (PStr (now_isoformat env)))
                    (dict_set ''am_owner_name'' am_name
                      (dict_set ''csm_owner_name'' csm_name
                        (auto_map_am (db_users db)
                          (if configured_scope rp cu = PStr ''own''
                           then dict_set ''csm_owner_id'' (Atom (PStr (user_id cu))) data
                           else data)))))"
proof -
  let ?e2 = "auto_map_am (db_users db)
               (if configured_scope rp cu = PStr ''own''
                then dict_set ''csm_owner_id'' (Atom (PStr (user_id cu))) data else data)"
  show ?thesis
  proof (cases "owner_name (db_users db) (doc_get ?e2 ''csm_owner_id'')")
    case (Inl e')
    with assms show ?thesis by (simp add: build_update_def Let_def)
  next
    case c: (Inr csm_name)
    show ?thesis
    proof (cases "owner_name (db_users db) (doc_get ?e2 ''am_owner_id'')")
      case (Inl e')
      with assms c show ?thesis by (simp add: build_update_def Let_def)
    next
      case (Inr am_name)
      with assms c have "upd = fill_health env existing
                  (dict_set ''updated_at'' (Atom (PStr (now_isoformat env)))
                    (dict_set ''am_owner_name'' am_name
                      (dict_set ''csm_owner_name'' csm_name ?e2)))"
        by (simp add: build_update_def Let_def)
      then show ?thesis by blast
    qed
  qed
qed

lemma build_update_owner:
  assumes "build_update env rp db cu existing data = Inr upd"
    and "configured_scope rp cu = PStr ''own''"
  shows "dict_get upd ''csm_owner_id'' = Some (Atom (PStr (user_id cu)))"
proof -
  from build_update_Inr [OF assms(1)] assms(2) obtain csm_name am_name where
    "upd = fill_health env existing
                  (dict_set ''updated_at'' (Atom (PStr (now_isoformat env)))
                    (dict_set ''am_owner_name'' am_name
                      (dict_set ''csm_owner_name'' csm_name
                        (auto_map_am (db_users db)
                          (dict_set ''csm_owner_id'' (Atom (PStr (user_id cu))) data)))))"
    by auto
  then show ?thesis
    by (simp add: dict_get_fill_health dict_get_set dict_get_auto_map)
qed

lemma build_update_distinct:
  assumes "build_update env rp db cu existing data = Inr upd" and "distinct (map fst data)"
  shows "distinct (map fst upd)"
proof -
  from build_update_Inr [OF assms(1)] obtain csm_name am_name where
    u: "upd = fill_health env existing
                  (dict_set ''updated_at'' (Atom (PStr (now_isoformat env)))
                    (dict_set ''am_owner_name'' am_name
                      (dict_set ''csm_owner_name'' csm_name
                        (auto_map_am (db_users db)
                          (if configured_scope rp cu = PStr ''own''
                           then dict_set ''csm_owner_id'' (Atom (PStr (user_id cu))) data
                           else data)))))"
    by blast
  have "distinct (map fst (if configured_scope rp cu = PStr ''own''
                           then dict_set ''csm_owner_id'' (Atom (PStr (user_id cu))) data
                           else data))"
    using assms(2) by (simp add: distinct_dict_set)
  then show ?thesis
    unfolding u
    by (intro distinct_fill_health distinct_dict_set distinct_auto_map)
qed

lemma dict_update_absent:
  "k \<notin> fst ` set u \<Longrightarrow> dict_get (dict_update d u) k = dict_get d k"
  unfolding dict_update_def
  by (induction u arbitrary: d) (auto simp: dict_get_set)

lemma dict_update_present:
  assumes "distinct (map fst u)" and "dict_get u k = Some v"
  shows "dict_get (dict_update d u) k = Some v"
  using assms
proof (induction u arbitrary: d)
  case Nil
  then show ?case by (simp add: dict_get_def)
next
  case (Cons p u)
  obtain k0 v0 where p: "p = (k0, v0)" by (cases p)
  have step: "dict_update d (p # u) = dict_update (dict_set k0 v0 d) u"
    by (simp add: dict_update_def p)
  show ?case
  proof (cases "k = k0")
    case True
    with Cons.prems p have v: "v = v0" and "k \<notin> fst ` set u"
      by (auto simp: dict_get_def)
    then show ?thesis
      unfolding step by (simp add: dict_update_absent dict_get_set True)
  next
    case False
    with Cons.prems p have "distinct (map fst u)" "dict_get u k = Some v"
      by (auto simp: dict_get_def)
    then show ?thesis
      unfolding step by (rule Cons.IH)
  qed
qed


lemma update_customer_missing:
  assumes "has_perm (get_effective_permissions rp cu) ''customers'' (Some ''edit'')"
    and "find_one (id_query (Atom (PStr i))) (db_customers db) = None"
  shows "update_customer env rp db i data cu = (Inl (HTTPException 404 ''Customer not found''), db)"
  using assms by (simp add: update_customer_def require_perm_def Let_def)

lemma update_customer_crash:
  assumes "has_perm (get_effective_permissions rp cu) ''customers'' (Some ''edit'')"
    and "find_one (id_query (Atom (PStr i))) (db_customers db) = Some existing"
    and "build_update env rp db cu existing data = Inl e"
  shows "update_customer env rp db i data cu = (Inl (Unhandled ''KeyError''), db)"
proof -
  have "existing \<noteq> []" using assms(2) by (rule find_by_id_Some)
  moreover have "e = Unhandled ''KeyError''" using assms(3) by (rule build_update_error)
  ultimately show ?thesis
    using assms by (simp add: update_customer_def require_perm_def Let_def)
qed

lemma update_customer_write:
  assumes "has_perm (get_effective_permissions rp cu) ''customers'' (Some ''edit'')"
    and "find_one (id_query (Atom (PStr i))) (db_customers db) = Some existing"
    and "build_update env rp db cu existing data = Inr upd"
  shows "update_customer env rp db i data cu
           = (reload_customer env i (update_one (id_query (Atom (PStr i))) upd (db_customers db)),
              db\<lparr>db_customers := update_one (id_query (Atom (PStr i))) upd (db_customers db)\<rparr>)"
proof -
  have "existing \<noteq> []" using assms(2) by (rule find_by_id_Some)
  then show ?thesis
    using assms by (simp add: update_customer_def require_perm_def Let_def)
qed

lemma reload_not_http: "reload_customer env i coll \<noteq> Inl (HTTPException c d)"
  using reload_customer_error [of env i coll "HTTPException c d"] by auto

section \<open>Lemmas on the settings cache\<close>

lemma update_settings_cache:
  "SETTINGS_CACHE (snd (update_settings dflt payload cu now s))
     = (if set (roles cu) \<inter> set ROLE_SETTINGS_ADMIN = {} then SETTINGS_CACHE s
        else SETTINGS_CACHE (snd (ensure_settings dflt False now s)))
   \<and> SETTINGS_CACHE_TIMESTAMP (snd (update_settings dflt payload cu now s))
     = (if set (roles cu) \<inter> set ROLE_SETTINGS_ADMIN = {} then SETTINGS_CACHE_TIMESTAMP s
        else SETTINGS_CACHE_TIMESTAMP (snd (ensure_settings dflt False now s)))"
  by (simp add: update_settings_def require_roles_def Let_def split: prod.splits)

lemma ensure_settings_cached:
  assumes "SETTINGS_CACHE s = Some cached" and "now - SETTINGS_CACHE_TIMESTAMP s < CACHE_TTL"
  shows "ensure_settings dflt False now s = (cached, s)"
  using assms by (simp add: ensure_settings_def)

section \<open>Lemmas on the effective customers scope\<close>



















section \<open>Claims\<close>

text \<open>
  C6. For all module permissions \<open>a\<close> and \<open>b\<close>, the scope of \<open>merge(a, b)\<close> is
  whichever of \<open>a.scope\<close> and \<open>b.scope\<close> ranks higher in the lattice
  none(0) < own(1) < team(2) < all(3), a tie keeping \<open>a.scope\<close>; a missing or
  unknown scope ranks as none; and the rank of the merged scope is at least the
  maximum of the two ranks.
\<close>

theorem merge_scope_widest:
  "get_val (scalars (merge_module_perms a b)) ''scope'' =
     (if scope_rank (get_val (scalars a) ''scope'') \<ge> scope_rank (get_val (scalars b) ''scope'')
      then get_val (scalars a) ''scope'' else get_val (scalars b) ''scope'')
   \<and> scope_rank (get_val (scalars (merge_module_perms a b)) ''scope'')
       = max (scope_rank (get_val (scalars a) ''scope''))
             (scope_rank (get_val (scalars b) ''scope''))
   \<and> scope_rank (PStr ''none'') = 0 \<and> scope_rank (PStr ''own'') = 1
   \<and> scope_rank (PStr ''team'') = 2 \<and> scope_rank (PStr ''all'') = 3
   \<and> scope_rank PNone = 0
   \<and> (s \<notin> {''own'', ''team'', ''all''} \<longrightarrow> scope_rank (PStr s) = 0)"
proof -
  have r: "''scope'' \<in> set reserved_keys"
    by (simp add: reserved_keys_def)
  have "get_val (scalars (merge_module_perms a b)) ''scope'' =
     (if scope_rank (get_val (scalars a) ''scope'') \<ge> scope_rank (get_val (scalars b) ''scope'')
      then get_val (scalars a) ''scope'' else get_val (scalars b) ''scope'')"
    by (simp add: merge_module_perms_def Let_def copy_extra_reserved [OF r] get_val_set)
  then show ?thesis
    by (simp add: max_def)
qed

theorem merge_scope_widest_witness:
  "get_val (scalars (merge_module_perms
      \<lparr>scalars = [(''enabled'', PBool True), (''scope'', PStr ''own'')], actions = None\<rparr>
      \<lparr>scalars = [(''enabled'', PBool True), (''scope'', PStr ''team''),
                  (''field_policy'', PStr ''x'')], actions = None\<rparr>)) ''scope'' = PStr ''team''
   \<and> scope_rank (PStr ''bogus'') = 0"
  using merge_scope_widest [of
      "\<lparr>scalars = [(''enabled'', PBool True), (''scope'', PStr ''own'')], actions = None\<rparr>"
      "\<lparr>scalars = [(''enabled'', PBool True), (''scope'', PStr ''team''),
                  (''field_policy'', PStr ''x'')], actions = None\<rparr>" "''bogus''"]
  by (simp add: get_val_def dict_get_def)


text \<open>
  C4. For every user, module key and optional action, \<^verbatim>\<open>_require_perm\<close>
  answers 403 Forbidden if and only if the effective module permission is not
  enabled, or an action is given (a non-empty action name, which is what the
  source's \<^verbatim>\<open>if not action\<close> tests) and that action is not granted, a missing
  module, key or action counting as false; in every other case it returns the
  effective permission set.
\<close>

theorem require_perm_denied_iff:
  "(require_perm rp cu m a = Inl (HTTPException 403 ''Forbidden''))
     = (\<not> module_enabled (get_effective_permissions rp cu) m
        \<or> (\<exists>k. a = Some k \<and> k \<noteq> [] \<and> \<not> action_granted (get_effective_permissions rp cu) m k))
   \<and> (require_perm rp cu m a \<noteq> Inl (HTTPException 403 ''Forbidden'')
        \<longrightarrow> require_perm rp cu m a = Inr (get_effective_permissions rp cu))"
  by (auto simp: require_perm_def has_perm_char Let_def)

theorem require_perm_denied_iff_witness:
  "module_enabled (get_effective_permissions ex_matrix (ex_user [''CSM''] ''csm1'')) ''customers''
   \<and> \<not> action_granted (get_effective_permissions ex_matrix (ex_user [''CSM''] ''csm1''))
         ''customers'' ''delete''
   \<and> require_perm ex_matrix (ex_user [''CSM''] ''csm1'') ''customers'' (Some ''delete'')
       = Inl (HTTPException 403 ''Forbidden'')
   \<and> require_perm ex_matrix (ex_user [''CSM''] ''csm1'') ''customers'' (Some ''edit'')
       = Inr (get_effective_permissions ex_matrix (ex_user [''CSM''] ''csm1''))"
proof -
  let ?eff = "get_effective_permissions ex_matrix (ex_user [''CSM''] ''csm1'')"
  have en: "module_enabled ?eff ''customers''"
    by code_simp
  have del: "\<not> action_granted ?eff ''customers'' ''delete''"
    by code_simp
  have ed: "action_granted ?eff ''customers'' ''edit''"
    by code_simp
  have d: "require_perm ex_matrix (ex_user [''CSM''] ''csm1'') ''customers'' (Some ''delete'')
             = Inl (HTTPException 403 ''Forbidden'')"
    using require_perm_denied_iff [of ex_matrix "ex_user [''CSM''] ''csm1''" "''customers''"
            "Some ''delete''"] del
    by simp
  have e: "require_perm ex_matrix (ex_user [''CSM''] ''csm1'') ''customers'' (Some ''edit'')
             = Inr ?eff"
    using require_perm_denied_iff [of ex_matrix "ex_user [''CSM''] ''csm1''" "''customers''"
            "Some ''edit''"] en ed
    by simp
  show ?thesis
    using en del d e by simp
qed

text \<open>
  C1, as stated (a user with an empty role set has every module disabled and is
  denied everywhere), fails: \<^verbatim>\<open>_get_effective_permissions\<close> replaces an empty role
  list by \<^verbatim>\<open>["READ_ONLY"]\<close>, and under the default permission matrix that role
  enables \<^verbatim>\<open>customers\<close>, so \<^verbatim>\<open>_require_perm\<close> lets the user through.
\<close>

theorem empty_roles_counterexample:
  "roles (ex_user [] ''u1'') = []
   \<and> module_enabled (get_effective_permissions default_role_permissions (ex_user [] ''u1''))
        ''customers''
   \<and> require_perm default_role_permissions (ex_user [] ''u1'') ''customers'' None
        \<noteq> Inl (HTTPException 403 ''Forbidden'')"
  by code_simp

text \<open>
  C1, amended. For every user whose role set is empty, the resolved effective
  permission set and every answer of \<^verbatim>\<open>_require_perm\<close> are those of a user
  holding the single role \<^verbatim>\<open>READ_ONLY\<close>; every module is disabled and every
  call of \<^verbatim>\<open>_require_perm\<close> is denied when the permission matrix grants
  \<^verbatim>\<open>READ_ONLY\<close> no module.
\<close>

theorem empty_roles_fall_back:
  assumes "roles cu = []"
  shows "get_effective_permissions rp cu
           = get_effective_permissions rp
               \<lparr>payload_roles = Some [''READ_ONLY''], payload_role = None,
                payload_user_id = payload_user_id cu\<rparr>
         \<and> require_perm rp cu m a
           = require_perm rp
               \<lparr>payload_roles = Some [''READ_ONLY''], payload_role = None,
                payload_user_id = payload_user_id cu\<rparr> m a
         \<and> (modules_of rp ''READ_ONLY'' = [] \<longrightarrow>
              \<not> module_enabled (get_effective_permissions rp cu) m
              \<and> require_perm rp cu m a = Inl (HTTPException 403 ''Forbidden''))"
  using assms
  by (simp add: get_effective_permissions_def require_perm_def roles_read_only merge_role_def
        has_perm_char module_enabled_def dict_get_def Let_def)

theorem empty_roles_fall_back_witness:
  "roles (ex_user [] ''u1'') = []
   \<and> modules_of ex_matrix ''READ_ONLY'' = []
   \<and> require_perm ex_matrix (ex_user [] ''u1'') ''customers'' None
       = Inl (HTTPException 403 ''Forbidden'')
   \<and> get_effective_permissions default_role_permissions (ex_user [] ''u1'')
       = get_effective_permissions default_role_permissions
           \<lparr>payload_roles = Some [''READ_ONLY''], payload_role = None,
            payload_user_id = Some ''u1''\<rparr>"
proof -
  have r: "roles (ex_user [] ''u1'') = []"
    by (simp add: roles_ex_user)
  have m: "modules_of ex_matrix ''READ_ONLY'' = []"
    by (simp add: modules_of_def ex_matrix_def dict_get_def)
  have u: "payload_user_id (ex_user [] ''u1'') = Some ''u1''"
    by (simp add: ex_user_def)
  have A: "require_perm ex_matrix (ex_user [] ''u1'') ''customers'' None
             = Inl (HTTPException 403 ''Forbidden'')"
    using empty_roles_fall_back [OF r, of ex_matrix "''customers''" None] m by blast
  have B: "get_effective_permissions default_role_permissions (ex_user [] ''u1'')
       = get_effective_permissions default_role_permissions
           \<lparr>payload_roles = Some [''READ_ONLY''], payload_role = None,
            payload_user_id = Some ''u1''\<rparr>"
    using empty_roles_fall_back [OF r, of default_role_permissions "''customers''" None]
    unfolding u by blast
  show ?thesis
    using r m A B by blast
qed

text \<open>
  C9. For every user holding at least one of the roles \<^verbatim>\<open>ADMIN\<close>, \<^verbatim>\<open>CS_OPS\<close>,
  \<^verbatim>\<open>CS_LEADER\<close>, \<^verbatim>\<open>_customer_scope_query\<close> returns the unrestricted filter
  \<^verbatim>\<open>{}\<close>, which matches every customer, whatever the permission matrix says:
  the configured scope is not consulted.
\<close>

theorem adminish_unrestricted:
  assumes "set (roles cu) \<inter> {''ADMIN'', ''CS_OPS'', ''CS_LEADER''} \<noteq> {}"
  shows "customer_scope_query rp db cu = filter_all \<and> filter_all = [] \<and> matches c filter_all"
  using assms
  by (simp add: customer_scope_query_def ROLE_ADMINISH_def filter_all_def matches_def Let_def)

theorem adminish_unrestricted_witness:
  "set (roles (ex_user [''ADMIN''] ''adm'')) \<inter> {''ADMIN'', ''CS_OPS'', ''CS_LEADER''} \<noteq> {}
   \<and> configured_scope ex_matrix (ex_user [''ADMIN''] ''adm'') = PStr ''own''
   \<and> \<not> module_enabled (get_effective_permissions ex_matrix (ex_user [''ADMIN''] ''adm''))
          ''customers''
   \<and> customer_scope_query ex_matrix ex_db (ex_user [''ADMIN''] ''adm'') = []"
proof -
  have r: "set (roles (ex_user [''ADMIN''] ''adm'')) \<inter> {''ADMIN'', ''CS_OPS'', ''CS_LEADER''} \<noteq> {}"
    by (simp add: roles_ex_user)
  have s: "configured_scope ex_matrix (ex_user [''ADMIN''] ''adm'') = PStr ''own''"
    by code_simp
  have e: "\<not> module_enabled (get_effective_permissions ex_matrix (ex_user [''ADMIN''] ''adm''))
          ''customers''"
    by code_simp
  have q: "customer_scope_query ex_matrix ex_db (ex_user [''ADMIN''] ''adm'') = []"
    using adminish_unrestricted [OF r, of ex_matrix ex_db "[]"] by metis
  show ?thesis
    using r s e q by blast
qed







text \<open>
  C5, as stated (on the team branch the filter matches exactly the customers whose
  \<^verbatim>\<open>am_owner_id\<close> is the user's id or whose \<^verbatim>\<open>csm_owner_id\<close> belongs to a user
  managed by the user and holding the role \<^verbatim>\<open>CSM\<close>), fails beyond the bound of the
  user lookup, \<^verbatim>\<open>to_list(5000)\<close>: the 5001st direct CSM report of \<^verbatim>\<open>am1\<close> is
  not among the looked-up ids, and the customer this report owns does not match.
\<close>

theorem team_scope_bound_counterexample:
  "report_no 5000 \<in> set (db_users ex_big_db)
   \<and> direct_csm_report ''am1'' (report_no 5000)
   \<and> dict_get ex_far_customer ''csm_owner_id'' = Some (doc_get (report_no 5000) ''id'')
   \<and> customer_scope_query ex_matrix ex_big_db (ex_user [''AM''] ''am1'')
       = filter_team (db_users ex_big_db) ''am1''
   \<and> \<not> matches ex_far_customer
           (customer_scope_query ex_matrix ex_big_db (ex_user [''AM''] ''am1''))"
proof -
  have "(5000::nat) \<in> set [0..<5001]"
    by simp
  then have "report_no 5000 \<in> report_no ` set [0..<5001]"
    by (rule imageI)
  then have a: "report_no 5000 \<in> set (db_users ex_big_db)"
    unfolding ex_big_db_def ex_many_reports_def by simp
  have c: "dict_get ex_far_customer ''csm_owner_id'' = Some (doc_get (report_no 5000) ''id'')"
    by (simp add: ex_far_customer_def report_no_def doc_get_def dict_get_def)
  have s: "configured_scope ex_matrix (ex_user [''AM''] ''am1'') = PStr ''team''"
    by code_simp
  have q: "customer_scope_query ex_matrix ex_big_db (ex_user [''AM''] ''am1'')
             = filter_team (db_users ex_big_db) ''am1''"
    by (simp add: customer_scope_query_def Let_def roles_ex_user user_id_ex_user s ROLE_ADMINISH_def)
  have us: "db_users ex_big_db = ex_many_reports"
    by (simp add: ex_big_db_def)
  have am: "\<not> mongo_eq (dict_get ex_far_customer ''am_owner_id'') (Atom (PStr ''am1''))"
    by (simp add: ex_far_customer_def dict_get_def)
  have ids: "\<not> (\<exists>v \<in> set (managed_csm_ids ex_many_reports ''am1'').
                 mongo_eq (dict_get ex_far_customer ''csm_owner_id'') v)"
    unfolding many_reports_ids
    by (auto simp: ex_far_customer_def dict_get_def report_id_inj)
  have m: "\<not> matches ex_far_customer (filter_team ex_many_reports ''am1'')"
    unfolding matches_team using am ids by blast
  show ?thesis
    using a report_direct [of 5000] c q m unfolding us q by blast
qed

text \<open>
  C5, amended. For every user for whom \<^verbatim>\<open>_customer_scope_query\<close> takes its team
  branch (no role of \<^verbatim>\<open>ADMIN\<close>, \<^verbatim>\<open>CS_OPS\<close>, \<^verbatim>\<open>CS_LEADER\<close>, \<^verbatim>\<open>SALES\<close>; not
  scoped \<^verbatim>\<open>own\<close>, not a CSM without AM; scope \<^verbatim>\<open>team\<close> or role \<^verbatim>\<open>AM\<close>), the
  derived filter matches exactly the customers whose \<^verbatim>\<open>am_owner_id\<close> is the user's
  id or whose \<^verbatim>\<open>csm_owner_id\<close> is among the ids that the single user lookup
  returned. Every such id is the id of a user whose \<^verbatim>\<open>manager_id\<close> is the user's
  id and who holds the role \<^verbatim>\<open>CSM\<close>: one level of the hierarchy, never
  transitive, so a customer that is not the user's as AM and whose CSM owner is no
  direct report does not match. Conversely, when the user has at most 5000 direct
  CSM reports (the bound of the lookup), every customer owned by a direct CSM
  report with a non-empty id matches.
\<close>

theorem team_scope_one_level:
  assumes "set (roles cu) \<inter> {''ADMIN'', ''CS_OPS'', ''CS_LEADER'', ''SALES''} = {}"
    and "configured_scope rp cu \<noteq> PStr ''own''"
    and "''CSM'' \<in> set (roles cu) \<longrightarrow> ''AM'' \<in> set (roles cu)"
    and "configured_scope rp cu = PStr ''team'' \<or> ''AM'' \<in> set (roles cu)"
  shows "customer_scope_query rp db cu = filter_team (db_users db) (user_id cu)
    \<and> (matches c (customer_scope_query rp db cu)
         = (mongo_eq (dict_get c ''am_owner_id'') (Atom (PStr (user_id cu)))
            \<or> (\<exists>v \<in> set (managed_csm_ids (db_users db) (user_id cu)).
                  mongo_eq (dict_get c ''csm_owner_id'') v)))
    \<and> (\<forall>v \<in> set (managed_csm_ids (db_users db) (user_id cu)).
          \<exists>u \<in> set (db_users db). direct_csm_report (user_id cu) u \<and> doc_get u ''id'' = v)
    \<and> (\<not> mongo_eq (dict_get c ''am_owner_id'') (Atom (PStr (user_id cu)))
        \<and> (\<forall>u \<in> set (db_users db). direct_csm_report (user_id cu) u
               \<longrightarrow> \<not> mongo_eq (dict_get c ''csm_owner_id'') (doc_get u ''id''))
        \<longrightarrow> \<not> matches c (customer_scope_query rp db cu))
    \<and> (length (filter (direct_csm_report (user_id cu)) (db_users db)) \<le> 5000
        \<longrightarrow> (\<forall>u \<in> set (db_users db).
               direct_csm_report (user_id cu) u \<and> val_truthy (doc_get u ''id'')
               \<and> mongo_eq (dict_get c ''csm_owner_id'') (doc_get u ''id'')
               \<longrightarrow> matches c (customer_scope_query rp db cu)))"
proof -
  let ?uid = "user_id cu"
  let ?us = "db_users db"
  have q: "customer_scope_query rp db cu = filter_team ?us ?uid"
    using assms by (auto simp: customer_scope_query_def ROLE_ADMINISH_def Let_def)
  have sound: "\<forall>v \<in> set (managed_csm_ids ?us ?uid).
          \<exists>u \<in> set ?us. direct_csm_report ?uid u \<and> doc_get u ''id'' = v"
    using managed_ids_sound by blast
  have one_level: "\<not> mongo_eq (dict_get c ''am_owner_id'') (Atom (PStr ?uid))
        \<and> (\<forall>u \<in> set ?us. direct_csm_report ?uid u
               \<longrightarrow> \<not> mongo_eq (dict_get c ''csm_owner_id'') (doc_get u ''id''))
        \<longrightarrow> \<not> matches c (filter_team ?us ?uid)"
  proof (intro impI notI)
    assume h: "\<not> mongo_eq (dict_get c ''am_owner_id'') (Atom (PStr ?uid))
        \<and> (\<forall>u \<in> set ?us. direct_csm_report ?uid u
               \<longrightarrow> \<not> mongo_eq (dict_get c ''csm_owner_id'') (doc_get u ''id''))"
      and m: "matches c (filter_team ?us ?uid)"
    from m h obtain v where v: "v \<in> set (managed_csm_ids ?us ?uid)"
        "mongo_eq (dict_get c ''csm_owner_id'') v"
      unfolding matches_team by blast
    from v(1) sound obtain u where "u \<in> set ?us" "direct_csm_report ?uid u" "doc_get u ''id'' = v"
      by blast
    with h v(2) show False by blast
  qed
  have complete: "length (filter (direct_csm_report ?uid) ?us) \<le> 5000
        \<longrightarrow> (\<forall>u \<in> set ?us.
               direct_csm_report ?uid u \<and> val_truthy (doc_get u ''id'')
               \<and> mongo_eq (dict_get c ''csm_owner_id'') (doc_get u ''id'')
               \<longrightarrow> matches c (filter_team ?us ?uid))"
  proof (intro impI ballI)
    fix u
    assume len: "length (filter (direct_csm_report ?uid) ?us) \<le> 5000"
      and u: "u \<in> set ?us"
      and h: "direct_csm_report ?uid u \<and> val_truthy (doc_get u ''id'')
               \<and> mongo_eq (dict_get c ''csm_owner_id'') (doc_get u ''id'')"
    have "doc_get u ''id'' \<in> set (managed_csm_ids ?us ?uid)"
      using managed_ids_complete [OF len u] h by simp
    with h show "matches c (filter_team ?us ?uid)"
      unfolding matches_team by blast
  qed
  show ?thesis
    unfolding q
    using matches_team [of c ?us ?uid] sound one_level complete
    by simp
qed



theorem team_scope_one_level_witness:
  "customer_scope_query ex_matrix ex_db (ex_user [''AM''] ''am1'') = filter_team ex_users ''am1''
   \<and> managed_csm_ids ex_users ''am1'' = [Atom (PStr ''csm1'')]
   \<and> managed_csm_ids ex_users ''am0'' = []
   \<and> matches ex_c3 (customer_scope_query ex_matrix ex_db (ex_user [''AM''] ''am1''))
   \<and> \<not> matches ex_c3 (customer_scope_query ex_matrix ex_db (ex_user [''AM''] ''am0''))"
proof -
  let ?am1 = "ex_user [''AM''] ''am1''" and ?am0 = "ex_user [''AM''] ''am0''"
  have r: "set (roles (ex_user [''AM''] u)) \<inter> {''ADMIN'', ''CS_OPS'', ''CS_LEADER'', ''SALES''} = {}"
    for u by (simp add: roles_ex_user)
  have s1: "configured_scope ex_matrix ?am1 \<noteq> PStr ''own''"
    by code_simp
  have s0: "configured_scope ex_matrix ?am0 \<noteq> PStr ''own''"
    by code_simp
  have i: "''CSM'' \<in> set (roles (ex_user [''AM''] u)) \<longrightarrow> ''AM'' \<in> set (roles (ex_user [''AM''] u))"
    for u by (simp add: roles_ex_user)
  have t: "configured_scope ex_matrix (ex_user [''AM''] u) = PStr ''team''
             \<or> ''AM'' \<in> set (roles (ex_user [''AM''] u))"
    for u by (simp add: roles_ex_user)
  note T1 = team_scope_one_level [OF r s1 i t, of ex_db ex_c3, unfolded user_id_ex_user]
  note T0 = team_scope_one_level [OF r s0 i t, of ex_db ex_c3, unfolded user_id_ex_user]
  have us: "db_users ex_db = ex_users"
    by (simp add: ex_db_def)
  have q: "customer_scope_query ex_matrix ex_db ?am1 = filter_team ex_users ''am1''"
    using T1 unfolding us by blast
  have ids1: "managed_csm_ids ex_users ''am1'' = [Atom (PStr ''csm1'')]"
    by code_simp
  have ids0: "managed_csm_ids ex_users ''am0'' = []"
    by code_simp
  have len: "length (filter (direct_csm_report ''am1'') (db_users ex_db)) \<le> 5000"
    by code_simp
  have own: "\<exists>u \<in> set (db_users ex_db). direct_csm_report ''am1'' u
               \<and> val_truthy (doc_get u ''id'')
               \<and> mongo_eq (dict_get ex_c3 ''csm_owner_id'') (doc_get u ''id'')"
    by code_simp
  have m1: "matches ex_c3 (customer_scope_query ex_matrix ex_db ?am1)"
    using T1 len own by blast
  have am: "\<not> mongo_eq (dict_get ex_c3 ''am_owner_id'') (Atom (PStr ''am0''))"
    by code_simp
  have far: "\<forall>u \<in> set (db_users ex_db). direct_csm_report ''am0'' u
               \<longrightarrow> \<not> mongo_eq (dict_get ex_c3 ''csm_owner_id'') (doc_get u ''id'')"
    by code_simp
  have m0: "\<not> matches ex_c3 (customer_scope_query ex_matrix ex_db ?am0)"
    using T0 am far by blast
  show ?thesis
    using q ids1 ids0 m1 m0 by blast
qed


text \<open>
  C3, as stated (every row returned under \<^verbatim>\<open>sales_limited\<close> contains only the
  allow-listed fields, and a \<^verbatim>\<open>website\<close> or \<^verbatim>\<open>stakeholders\<close> field never
  appears), fails on what the endpoints return: both turn the projected document
  into a \<^verbatim>\<open>Customer\<close>, which has all 32 fields of the model. For a SALES user the
  single fetch of \<^verbatim>\<open>c1\<close> returns a row with a \<^verbatim>\<open>website\<close> field (null, while
  the stored customer has a website), and every listed row has a
  \<^verbatim>\<open>stakeholders\<close> field (the empty list).
\<close>

theorem sales_limited_fields_counterexample:
  "field_policy (get_effective_permissions ex_matrix (ex_user [''SALES''] ''s1''))
     = PStr ''sales_limited''
   \<and> dict_get (hd ex_customers) ''website'' = Some (Atom (PStr ''acme.example''))
   \<and> map_sum id (map fst) (get_customer ex_env ex_matrix ex_db ''c1'' (ex_user [''SALES''] ''s1''))
       = Inr (map fst customer_schema)
   \<and> map_sum id (\<lambda>r. dict_get r ''website'')
        (get_customer ex_env ex_matrix ex_db ''c1'' (ex_user [''SALES''] ''s1''))
       = Inr (Some (Atom PNone))
   \<and> map_sum id (map (\<lambda>r. dict_get r ''stakeholders''))
        (get_customers ex_env ex_matrix ex_db (ex_user [''SALES''] ''s1''))
       = Inr [Some (Arr []), Some (Arr []), Some (Arr [])]"
  by code_simp

text \<open>
  C3, amended. For every user whose effective \<^verbatim>\<open>customers\<close> permission carries
  \<^verbatim>\<open>field_policy = "sales_limited"\<close>, every customer row that the list endpoint
  \<^verbatim>\<open>get_customers\<close> and the single-fetch endpoint \<^verbatim>\<open>get_customer\<close> return is a
  \<^verbatim>\<open>Customer\<close> in which only the allow-listed fields (id, company_name, arr,
  renewal_date, health_score, health_status, account_status, csm_owner_name,
  am_owner_name, region, industry) come from the stored customer; every other
  field holds the model's default, in particular \<^verbatim>\<open>website\<close> is null and
  \<^verbatim>\<open>stakeholders\<close> is the empty list, so a stored website or stakeholders value
  never appears in the output.
\<close>

theorem sales_limited_rows:
  assumes "field_policy (get_effective_permissions rp cu) = PStr ''sales_limited''"
  shows "(get_customers env rp db cu = Inr rows \<longrightarrow>
            (\<forall>row \<in> set rows.
               defaults_outside env
                 [''id'', ''company_name'', ''arr'', ''renewal_date'', ''health_score'',
                  ''health_status'', ''account_status'', ''csm_owner_name'', ''am_owner_name'',
                  ''region'', ''industry''] row
               \<and> dict_get row ''website'' = Some (Atom PNone)
               \<and> dict_get row ''stakeholders'' = Some (Arr [])))
       \<and> (get_customer env rp db i cu = Inr r \<longrightarrow>
             defaults_outside env
               [''id'', ''company_name'', ''arr'', ''renewal_date'', ''health_score'',
                ''health_status'', ''account_status'', ''csm_owner_name'', ''am_owner_name'',
                ''region'', ''industry''] r
             \<and> dict_get r ''website'' = Some (Atom PNone)
             \<and> dict_get r ''stakeholders'' = Some (Arr []))"
proof -
  define A where "A = [''id'', ''company_name'', ''arr'', ''renewal_date'', ''health_score'',
                  ''health_status'', ''account_status'', ''csm_owner_name'', ''am_owner_name'',
                  ''region'', ''industry'']"
  have A1: "sales_projection = A"
    unfolding sales_projection_def A_def ..
  have A2: "sales_allowed = A"
    unfolding sales_allowed_def A_def ..
  have w: "''website'' \<notin> set A" and st: "''stakeholders'' \<notin> set A"
    unfolding A_def by simp_all
  have sw: "dict_get customer_schema ''website'' = Some (Default (Atom PNone))"
    by code_simp
  have ss: "dict_get customer_schema ''stakeholders'' = Some (Default (Arr []))"
    by code_simp
  have out: "dict_get row ''website'' = Some (Atom PNone)
             \<and> dict_get row ''stakeholders'' = Some (Arr [])"
    if "defaults_outside env A row" for row
    using defaults_outside_field [OF that sw w] defaults_outside_field [OF that ss st]
    by simp
  have list: "\<forall>row \<in> set rows. defaults_outside env A row"
    if g: "get_customers env rp db cu = Inr rows"
  proof
    fix row assume row: "row \<in> set rows"
    let ?found = "filter (\<lambda>c. matches c (customer_scope_query rp db cu)) (db_customers db)"
    let ?cs = "take 1000 (map (project sales_projection) ?found)"
    from get_customers_sales [OF assms g] obtain returned where
      f: "fix_all (fromisoformat env) ?cs = Inr returned" and
      o: "customers_response env returned = Inr rows"
      by blast
    have "\<forall>d \<in> set ?cs. fst ` set d \<subseteq> set A"
    proof
      fix d assume "d \<in> set ?cs"
      then have "d \<in> set (map (project sales_projection) ?found)"
        by (rule in_set_takeD)
      then obtain c where "d = project sales_projection c" by auto
      then show "fst ` set d \<subseteq> set A"
        using keys_project [of sales_projection c] unfolding A1 by simp
    qed
    with f have k: "\<forall>d \<in> set returned. fst ` set d \<subseteq> set A"
      by (rule keys_fix_all)
    from customers_response_rows [OF o] row obtain d where
      d: "d \<in> set returned" and c: "Customer env d = Inr row"
      by blast
    from k d have "fst ` set d \<subseteq> set A" by (rule bspec)
    with c show "defaults_outside env A row" by (rule Customer_defaults)
  qed
  have single: "defaults_outside env A r"
    if g: "get_customer env rp db i cu = Inr r"
  proof -
    from get_customer_sales [OF assms g] obtain c dated where
      f: "fix_dates (fromisoformat env) (filter (\<lambda>(k, v). k \<in> set sales_allowed) c) = Inr dated"
      and m: "Customer env dated = Inr r"
      by blast
    have "fst ` set dated \<subseteq> set A"
      unfolding keys_fix_dates [OF f]
      using keys_filter_allowed [of sales_allowed c] unfolding A2 .
    with m show ?thesis by (rule Customer_defaults)
  qed
  have "(get_customers env rp db cu = Inr rows \<longrightarrow>
            (\<forall>row \<in> set rows. defaults_outside env A row
               \<and> dict_get row ''website'' = Some (Atom PNone)
               \<and> dict_get row ''stakeholders'' = Some (Arr [])))
       \<and> (get_customer env rp db i cu = Inr r \<longrightarrow>
             defaults_outside env A r
             \<and> dict_get r ''website'' = Some (Atom PNone)
             \<and> dict_get r ''stakeholders'' = Some (Arr []))"
  proof (intro conjI impI ballI)
    fix row
    assume g: "get_customers env rp db cu = Inr rows" and m: "row \<in> set rows"
    from list [OF g] m show k: "defaults_outside env A row" by (rule bspec)
    from out [OF k] show "dict_get row ''website'' = Some (Atom PNone)"
      "dict_get row ''stakeholders'' = Some (Arr [])"
      by (rule conjunct1, rule conjunct2)
  next
    assume g: "get_customer env rp db i cu = Inr r"
    from single [OF g] show k: "defaults_outside env A r" .
    from out [OF k] show "dict_get r ''website'' = Some (Atom PNone)"
      "dict_get r ''stakeholders'' = Some (Arr [])"
      by (rule conjunct1, rule conjunct2)
  qed
  then show ?thesis
    unfolding A_def .
qed

theorem sales_limited_rows_witness:
  "field_policy (get_effective_permissions ex_matrix (ex_user [''SALES''] ''s1''))
     = PStr ''sales_limited''
   \<and> dict_get (hd ex_customers) ''website'' = Some (Atom (PStr ''acme.example''))
   \<and> map_sum id length (get_customers ex_env ex_matrix ex_db (ex_user [''SALES''] ''s1''))
       = Inr 3
   \<and> map_sum id (\<lambda>r. dict_get r ''company_name'')
        (get_customer ex_env ex_matrix ex_db ''c1'' (ex_user [''SALES''] ''s1''))
       = Inr (Some (Atom (PStr ''Acme'')))
   \<and> (\<exists>r. get_customer ex_env ex_matrix ex_db ''c1'' (ex_user [''SALES''] ''s1'') = Inr r
          \<and> dict_get r ''website'' = Some (Atom PNone)
          \<and> dict_get r ''stakeholders'' = Some (Arr []))
   \<and> (\<exists>rows. get_customers ex_env ex_matrix ex_db (ex_user [''SALES''] ''s1'') = Inr rows
          \<and> list_all (\<lambda>row. dict_get row ''website'' = Some (Atom PNone)) rows)"
proof -
  let ?cu = "ex_user [''SALES''] ''s1''"
  have h: "field_policy (get_effective_permissions ex_matrix ?cu) = PStr ''sales_limited''"
    by code_simp
  have st: "dict_get (hd ex_customers) ''website'' = Some (Atom (PStr ''acme.example''))"
    by code_simp
  have n: "map_sum id length (get_customers ex_env ex_matrix ex_db ?cu) = Inr 3"
    by code_simp
  have c: "map_sum id (\<lambda>r. dict_get r ''company_name'')
             (get_customer ex_env ex_matrix ex_db ''c1'' ?cu) = Inr (Some (Atom (PStr ''Acme'')))"
    by code_simp
  from c obtain r where g2: "get_customer ex_env ex_matrix ex_db ''c1'' ?cu = Inr r"
    by (cases "get_customer ex_env ex_matrix ex_db ''c1'' ?cu") auto
  from n obtain rows where g1: "get_customers ex_env ex_matrix ex_db ?cu = Inr rows"
    by (cases "get_customers ex_env ex_matrix ex_db ?cu") auto
  note T = sales_limited_rows [OF h, of ex_env ex_db rows "''c1''" r]
  have single: "dict_get r ''website'' = Some (Atom PNone)
                \<and> dict_get r ''stakeholders'' = Some (Arr [])"
    using T g2 by blast
  have "\<forall>row \<in> set rows. dict_get row ''website'' = Some (Atom PNone)"
    using T g1 by blast
  then have listed: "list_all (\<lambda>row. dict_get row ''website'' = Some (Atom PNone)) rows"
    unfolding list_all_iff .
  show ?thesis
    using h st n c g2 single g1 listed by blast
qed

text \<open>
  C10. For every user granted the \<^verbatim>\<open>customers\<close> \<^verbatim>\<open>edit\<close> action,
  \<^verbatim>\<open>update_customer\<close> locates its target by id alone: it answers 404 exactly when
  no customer has the id and never 403, and the caller's scope filter takes no
  part. When the update document is built, it is written over the first customer
  that has the id, whoever owns it; and when the caller's effective customers scope
  is \<^verbatim>\<open>own\<close>, the update document carries the caller's id as
  \<^verbatim>\<open>csm_owner_id\<close>, which the write stores in the customer.
\<close>

theorem update_by_id_alone:
  assumes "has_perm (get_effective_permissions rp cu) ''customers'' (Some ''edit'')"
  shows "((fst (update_customer env rp db i data cu)
             = Inl (HTTPException 404 ''Customer not found''))
            = (\<forall>c \<in> set (db_customers db). \<not> has_id c i))
    \<and> fst (update_customer env rp db i data cu) \<noteq> Inl (HTTPException 403 ''Forbidden'')
    \<and> (\<forall>existing upd.
          find_one (id_query (Atom (PStr i))) (db_customers db) = Some existing
          \<and> build_update env rp db cu existing data = Inr upd
          \<longrightarrow> has_id existing i
              \<and> (\<exists>pre post. db_customers db = pre @ existing # post
                    \<and> db_customers (snd (update_customer env rp db i data cu))
                        = pre @ dict_update existing upd # post)
              \<and> (configured_scope rp cu = PStr ''own'' \<longrightarrow>
                    dict_get upd ''csm_owner_id'' = Some (Atom (PStr (user_id cu)))
                    \<and> (distinct (map fst data) \<longrightarrow>
                          dict_get (dict_update existing upd) ''csm_owner_id''
                            = Some (Atom (PStr (user_id cu))))))"
proof -
  let ?q = "id_query (Atom (PStr i))"
  let ?res = "update_customer env rp db i data cu"
  have first: "(fst ?res = Inl (HTTPException 404 ''Customer not found''))
                 = (\<forall>c \<in> set (db_customers db). \<not> has_id c i)"
    and second: "fst ?res \<noteq> Inl (HTTPException 403 ''Forbidden'')"
  proof -
    show "(fst ?res = Inl (HTTPException 404 ''Customer not found''))
                 = (\<forall>c \<in> set (db_customers db). \<not> has_id c i)"
    proof (cases "find_one ?q (db_customers db)")
      case None
      then show ?thesis
        using update_customer_missing [OF assms None, of env data] find_by_id_None [of i "db_customers db"]
        by simp
    next
      case (Some existing)
      then have ne: "\<not> (\<forall>c \<in> set (db_customers db). \<not> has_id c i)"
        using find_by_id_None [of i "db_customers db"] by simp
      show ?thesis
      proof (cases "build_update env rp db cu existing data")
        case (Inl e)
        show ?thesis
          using update_customer_crash [OF assms Some Inl] ne by simp
      next
        case (Inr upd)
        show ?thesis
          using update_customer_write [OF assms Some Inr] ne reload_not_http by simp
      qed
    qed
    show "fst ?res \<noteq> Inl (HTTPException 403 ''Forbidden'')"
    proof (cases "find_one ?q (db_customers db)")
      case None
      then show ?thesis
        using update_customer_missing [OF assms None, of env data] by simp
    next
      case (Some existing)
      show ?thesis
      proof (cases "build_update env rp db cu existing data")
        case (Inl e)
        show ?thesis
          using update_customer_crash [OF assms Some Inl] by simp
      next
        case (Inr upd)
        show ?thesis
          using update_customer_write [OF assms Some Inr] reload_not_http by simp
      qed
    qed
  qed
  have third: "has_id existing i
              \<and> (\<exists>pre post. db_customers db = pre @ existing # post
                    \<and> db_customers (snd ?res) = pre @ dict_update existing upd # post)
              \<and> (configured_scope rp cu = PStr ''own'' \<longrightarrow>
                    dict_get upd ''csm_owner_id'' = Some (Atom (PStr (user_id cu)))
                    \<and> (distinct (map fst data) \<longrightarrow>
                          dict_get (dict_update existing upd) ''csm_owner_id''
                            = Some (Atom (PStr (user_id cu)))))"
    if f: "find_one ?q (db_customers db) = Some existing"
      and b: "build_update env rp db cu existing data = Inr upd" for existing upd
  proof (intro conjI impI)
    show "has_id existing i" using f by (rule find_by_id_Some)
    have "db_customers (snd ?res) = update_one ?q upd (db_customers db)"
      using update_customer_write [OF assms f b] by simp
    then show "\<exists>pre post. db_customers db = pre @ existing # post
                    \<and> db_customers (snd ?res) = pre @ dict_update existing upd # post"
      using update_one_first [OF f, of upd] by simp
  next
    assume own: "configured_scope rp cu = PStr ''own''"
    show g: "dict_get upd ''csm_owner_id'' = Some (Atom (PStr (user_id cu)))"
      using b own by (rule build_update_owner)
    assume "distinct (map fst data)"
    with b have "distinct (map fst upd)" by (rule build_update_distinct)
    then show "dict_get (dict_update existing upd) ''csm_owner_id''
                            = Some (Atom (PStr (user_id cu)))"
      using g by (rule dict_update_present)
  qed
  show ?thesis
    using first second third by blast
qed

theorem update_by_id_alone_witness:
  "has_perm (get_effective_permissions ex_matrix (ex_user [''CSM''] ''csm1''))
      ''customers'' (Some ''edit'')
   \<and> configured_scope ex_matrix (ex_user [''CSM''] ''csm1'') = PStr ''own''
   \<and> get_customer_or_404 ex_matrix ex_db ''c2'' (ex_user [''CSM''] ''csm1'')
       = Inl (HTTPException 404 ''Customer not found'')
   \<and> dict_get (hd (tl (db_customers ex_db))) ''csm_owner_id'' = Some (Atom (PStr ''csm2''))
   \<and> fst (update_customer ex_env ex_matrix ex_db ''c2'' ex_customer_data
             (ex_user [''CSM''] ''csm1''))
       \<noteq> Inl (HTTPException 404 ''Customer not found'')
   \<and> dict_get (hd (tl (db_customers (snd (update_customer ex_env ex_matrix ex_db ''c2''
          ex_customer_data (ex_user [''CSM''] ''csm1'')))))) ''csm_owner_id''
       = Some (Atom (PStr ''csm1''))"
proof -
  let ?cu = "ex_user [''CSM''] ''csm1''"
  have p: "has_perm (get_effective_permissions ex_matrix ?cu) ''customers'' (Some ''edit'')"
    by code_simp
  have s: "configured_scope ex_matrix ?cu = PStr ''own''"
    by code_simp
  have n: "get_customer_or_404 ex_matrix ex_db ''c2'' ?cu
             = Inl (HTTPException 404 ''Customer not found'')"
    by code_simp
  have o: "dict_get (hd (tl (db_customers ex_db))) ''csm_owner_id'' = Some (Atom (PStr ''csm2''))"
    by code_simp
  have e: "\<not> (\<forall>c \<in> set (db_customers ex_db). \<not> has_id c ''c2'')"
    by code_simp
  have u: "fst (update_customer ex_env ex_matrix ex_db ''c2'' ex_customer_data ?cu)
             \<noteq> Inl (HTTPException 404 ''Customer not found'')"
    using update_by_id_alone [OF p, of ex_env ex_db "''c2''" ex_customer_data] e by blast
  have w: "dict_get (hd (tl (db_customers (snd (update_customer ex_env ex_matrix ex_db ''c2''
          ex_customer_data ?cu))))) ''csm_owner_id'' = Some (Atom (PStr ''csm1''))"
    by code_simp
  show ?thesis
    using p s n o u w by blast
qed


text \<open>
  C8 (the cache is invalidated or refreshed before an update of the role-permission
  configuration is acknowledged) fails on the code: \<^verbatim>\<open>update_settings\<close> writes the
  store and never touches the cache. In the run below the administrator's update,
  which disables \<^verbatim>\<open>customers\<close> for the role \<^verbatim>\<open>CSM\<close>, is acknowledged at time
  1010 and is in the store, yet the evaluation started at time 1020 still reads the
  matrix cached at time 1000 and finds \<^verbatim>\<open>customers\<close> enabled; only after the
  time to live has passed (time 1400) is the update observed.
\<close>

theorem update_settings_stale_cache:
  "map_sum id sd_role_permissions
      (fst (update_settings [] ex_payload (ex_user [''ADMIN''] ''adm'') 1010 ex_state_loaded))
     = Inr (Some ex_revoked)
   \<and> map_option sd_role_permissions (settings_store ex_state_updated) = Some (Some ex_revoked)
   \<and> map_option sd_role_permissions (SETTINGS_CACHE ex_state_updated) = Some (Some ex_matrix)
   \<and> SETTINGS_CACHE_TIMESTAMP ex_state_updated = 1000
   \<and> \<not> module_enabled (get_effective_permissions ex_revoked (ex_user [''CSM''] ''csm1''))
          ''customers''
   \<and> module_enabled
        (fst (effective_permissions_now [] 1020 (ex_user [''CSM''] ''csm1'') ex_state_updated))
        ''customers''
   \<and> \<not> module_enabled
        (fst (effective_permissions_now [] 1400 (ex_user [''CSM''] ''csm1'') ex_state_updated))
        ''customers''"
  by code_simp

end
